theory Spec2Isabelle
  imports Complex_Main "HOL-Library.Option_ord"
begin

section \<open>Values shared by the model\<close>

text \<open>
  The development embeds \<^verbatim>\<open>src/app/cabotapp/models.py\<close>. Points in time
  (\<^verbatim>\<open>datetime\<close>) are integers counting microseconds, the resolution of
  Python's \<^verbatim>\<open>datetime\<close>; a \<^verbatim>\<open>timedelta(minutes=n)\<close> is
  \<open>minutes n\<close>. Every call of \<^verbatim>\<open>timezone.now()\<close> is a parameter of the
  function that makes it, one parameter per call site. Exceptions are values of
  \<open>py_error\<close>.
\<close>

datatype py_error =
    TypeError
  | ValueError
  | AttributeError
  | UnsupportedCheckType
  | MultipleObjectsReturned

definition minutes :: "int \<Rightarrow> int" where
  "minutes n = n * 60 * 1000000"

section \<open>Check results and the debounce evaluator\<close>

text \<open>
  \<^verbatim>\<open>raw_data\<close> is an opaque payload: the text of the metrics backend's raw
  answer, or the status dictionary of the build server (spec, section 6:
  \<^verbatim>\<open>{active, succeeded, blocked_build_time}\<close>).
\<close>

record job_status =
  job_active :: bool
  job_succeeded :: bool
  blocked_build_time :: "int option"

datatype raw_payload = RawText string | RawStatus job_status

text \<open>
  \<^verbatim>\<open>StatusCheckResult\<close>. The last three fields are attributes that
  \<^verbatim>\<open>GraphiteStatusCheck.run\<close> sets on the object; they are not columns.
\<close>

record status_check_result =
  time :: int
  time_complete :: "int option"
  raw_data :: "raw_payload option"
  succeeded :: bool
  error :: "string option"
  average_value :: "rat option"
  actual_hosts :: "int option"
  failure_value :: "rat option"

text \<open>Python's \<^verbatim>\<open>xs[:k]\<close> on a list: a negative \<open>k\<close> counts from the end.\<close>

definition py_slice_to :: "'a list \<Rightarrow> int \<Rightarrow> 'a list" where
  "py_slice_to xs k =
     (if 0 \<le> k then take (nat k) xs else take (length xs - nat (- k)) xs)"

text \<open>The loop of \<^verbatim>\<open>calculate_debounced_passing\<close> over the debounce window.\<close>

fun any_succeeded :: "status_check_result list \<Rightarrow> bool" where
  "any_succeeded [] = False"
| "any_succeeded (r # rs) = (if succeeded r then True else any_succeeded rs)"

text \<open>
  \<^verbatim>\<open>calculate_debounced_passing(recent_results, debounce=0)\<close>. The column
  \<^verbatim>\<open>debounce\<close> is nullable, so the argument is an \<open>int option\<close>:
  \<^verbatim>\<open>None + 1\<close> raises \<^verbatim>\<open>TypeError\<close>, but only after the test for an
  empty history.
\<close>

definition calculate_debounced_passing ::
    "status_check_result list \<Rightarrow> int option \<Rightarrow> py_error + bool" where
  "calculate_debounced_passing recent_results debounce =
     (if recent_results = [] then Inr True
      else (case debounce of
              None \<Rightarrow> Inl TypeError
            | Some d \<Rightarrow> Inr (any_succeeded (py_slice_to recent_results (d + 1)))))"

section \<open>Status checks\<close>

text \<open>
  \<^verbatim>\<open>StatusCheck\<close>, the columns shared by all checks and those of the metric
  and build checks (the columns of the endpoint check and \<^verbatim>\<open>created_by\<close>
  are read by no function embedded here). Nullable columns are options. The status
  and importance columns are text, as in the source.
\<close>

record status_check =
  name :: string
  active :: bool
  importance :: string
  frequency :: int
  debounce :: "int option"
  calculated_status :: string
  last_run :: "int option"
  cached_health :: "string option"
  metric :: "string option"
  check_type :: "string option"
  check_value :: "string option"
  expected_num_hosts :: "int option"
  max_queued_build_time :: "int option"

definition PASSING_STATUS :: string where "PASSING_STATUS = ''PASSING''"
definition WARNING_STATUS :: string where "WARNING_STATUS = ''WARNING''"
definition ERROR_STATUS :: string where "ERROR_STATUS = ''ERROR''"
definition CRITICAL_STATUS :: string where "CRITICAL_STATUS = ''CRITICAL''"

definition CALCULATED_PASSING_STATUS :: string where
  "CALCULATED_PASSING_STATUS = ''passing''"
definition CALCULATED_INTERMITTENT_STATUS :: string where
  "CALCULATED_INTERMITTENT_STATUS = ''intermittent''"
definition CALCULATED_FAILING_STATUS :: string where
  "CALCULATED_FAILING_STATUS = ''failing''"

text \<open>\<^verbatim>\<open>sep.join(vals)\<close>.\<close>

fun py_join :: "string \<Rightarrow> string list \<Rightarrow> string" where
  "py_join sep [] = []"
| "py_join sep [v] = v"
| "py_join sep (v # w # vs) = v @ sep @ py_join sep (w # vs)"

definition result_to_value :: "status_check_result \<Rightarrow> string" where
  "result_to_value result = (if succeeded result then ''1'' else ''-1'')"

definition serialize_recent_results :: "status_check_result list \<Rightarrow> string" where
  "serialize_recent_results recent_results =
     (if recent_results = [] then []
      else py_join '','' (rev (map result_to_value recent_results)))"

text \<open>
  The result set of one check (\<^verbatim>\<open>statuscheckresult_set\<close>) is the list of its
  rows in the order they were saved, the latest last.
  \<^verbatim>\<open>order_by('-time_complete')\<close> sorts it by completion time, descending. Where
  the database is free (rows with equal completion times, rows without one) the
  model puts the row saved later first and the rows without a completion time last;
  no theorem below depends on that choice.
\<close>

definition order_by_time_complete_desc ::
    "status_check_result list \<Rightarrow> status_check_result list" where
  "order_by_time_complete_desc rows = rev (sort_key time_complete rows)"

text \<open>\<^verbatim>\<open>StatusCheck.recent_results\<close>: the first ten rows of that order.\<close>

definition recent_results :: "status_check_result list \<Rightarrow> status_check_result list" where
  "recent_results rows = take 10 (order_by_time_complete_desc rows)"

text \<open>
  \<^verbatim>\<open>StatusCheck.save\<close>, given the check's result set. \<open>Inr\<close> holds the row
  written by the base class's \<^verbatim>\<open>save\<close>; on \<open>Inl\<close> the exception leaves
  \<^verbatim>\<open>save\<close> before any field of the check is assigned. The history is sliced
  as a list. The code slices a query set, which refuses a negative bound: for a
  debounce of \<open>-2\<close> or less on a history that is not empty the code raises where
  this function returns a status. The theorems about \<^verbatim>\<open>save\<close> take a debounce
  \<open>d \<ge> 0\<close>, or hold of both.
\<close>

definition StatusCheck_save ::
    "status_check \<Rightarrow> status_check_result list \<Rightarrow> py_error + status_check" where
  "StatusCheck_save self rows =
     (let rr = recent_results rows in
      case calculate_debounced_passing rr (debounce self) of
        Inl e \<Rightarrow> Inl e
      | Inr passing \<Rightarrow>
          Inr (self\<lparr>calculated_status :=
                       (if passing then CALCULATED_PASSING_STATUS
                        else CALCULATED_FAILING_STATUS),
                    cached_health := Some (serialize_recent_results rr)\<rparr>))"

section \<open>Users, shifts, profiles and the duty roster\<close>

record user =
  user_id :: nat
  username :: string
  is_active :: bool

text \<open>
  \<^verbatim>\<open>Shift\<close>; the column \<^verbatim>\<open>end\<close> is \<open>end'\<close> here. A table of shifts is a
  list of rows, and the position of a row in the list is its primary key: rows are
  appended and never removed.
\<close>

record shift =
  start :: int
  end' :: int
  user :: user
  uid :: string
  deleted :: bool

text \<open>
  \<^verbatim>\<open>UserProfile\<close>; \<open>profile_id\<close> is the primary key \<^verbatim>\<open>id\<close>, \<open>None\<close> on
  an object that was never saved, and \<open>profile_user\<close> is the key of the profile's
  \<^verbatim>\<open>user\<close>.
\<close>

record user_profile =
  profile_id :: "nat option"
  profile_user :: nat
  mobile_number :: string
  hipchat_alias :: string
  fallback_alert_user :: bool

text \<open>
  \<^verbatim>\<open>get_duty_officers\<close> returns the users of the current shifts, or a list
  holding the fallback profile.
\<close>

datatype duty_officer = OfficerUser user | OfficerProfile user_profile

text \<open>
  \<^verbatim>\<open>get_duty_officers(at_time=None)\<close>; \<open>now\<close> is the clock reading used when
  \<open>at_time\<close> is \<open>None\<close>. \<^verbatim>\<open>UserProfile.objects.get\<close> raises
  \<^verbatim>\<open>DoesNotExist\<close> (caught) on no row and
  \<^verbatim>\<open>MultipleObjectsReturned\<close> (not caught) on several.
\<close>

definition get_duty_officers ::
    "int option \<Rightarrow> int \<Rightarrow> shift list \<Rightarrow> user_profile list \<Rightarrow> py_error + duty_officer list" where
  "get_duty_officers at_time now shifts profiles =
     (let at_time' = (case at_time of None \<Rightarrow> now | Some t \<Rightarrow> t);
          current_shifts = filter (\<lambda>s. \<not> deleted s \<and> start s < at_time' \<and> at_time' < end' s) shifts
      in if current_shifts \<noteq> [] then Inr (map (\<lambda>s. OfficerUser (user s)) current_shifts)
         else (case filter fallback_alert_user profiles of
                 [] \<Rightarrow> Inr []
               | [u] \<Rightarrow> Inr [OfficerProfile u]
               | _ \<Rightarrow> Inl MultipleObjectsReturned))"

section \<open>Services: aggregation and the alert throttle\<close>

text \<open>\<^verbatim>\<open>ServiceStatusSnapshot\<close> (without the key of its service).\<close>

record service_status_snapshot =
  snapshot_time :: int
  num_checks_active :: int
  num_checks_passing :: int
  num_checks_failing :: int
  snapshot_overall_status :: string
  did_send_alert :: bool

text \<open>
  \<^verbatim>\<open>Service\<close>: the columns that the embedded methods read or write, the rows of
  its \<^verbatim>\<open>status_checks\<close> relation, and the attribute \<^verbatim>\<open>snapshot\<close> that
  \<^verbatim>\<open>update_status\<close> sets on the object (\<open>None\<close>: the attribute does not
  exist).
\<close>

record service =
  service_name :: string
  alerts_enabled :: bool
  overall_status :: string
  old_overall_status :: string
  last_alert_sent :: "int option"
  status_checks :: "status_check list"
  snapshot :: "service_status_snapshot option"

text \<open>
  What a method does to the world outside the object, in order: the rows it saves
  and the calls of \<^verbatim>\<open>send_alert\<close> it makes. A method returns the object after
  the call, these effects, and the exception that left it, if any.
\<close>

datatype effect =
    SnapshotSaved service_status_snapshot
  | ServiceSaved service
  | AlertSent service "duty_officer list"

record outcome =
  svc :: service
  effects :: "effect list"
  raised :: "py_error option"

fun is_alert_sent :: "effect \<Rightarrow> bool" where
  "is_alert_sent (AlertSent s officers) = True"
| "is_alert_sent e = False"

definition dispatched :: "effect list \<Rightarrow> bool" where
  "dispatched es = list_ex is_alert_sent es"

definition active_status_checks :: "service \<Rightarrow> status_check list" where
  "active_status_checks self = filter active (status_checks self)"

definition all_failing_checks :: "service \<Rightarrow> status_check list" where
  "all_failing_checks self =
     filter (\<lambda>c. calculated_status c \<noteq> CALCULATED_PASSING_STATUS) (active_status_checks self)"

definition most_severe :: "status_check list \<Rightarrow> string" where
  "most_severe check_list =
     (let failures = map importance check_list
      in if CRITICAL_STATUS \<in> set failures then CRITICAL_STATUS
         else if ERROR_STATUS \<in> set failures then ERROR_STATUS
         else if WARNING_STATUS \<in> set failures then WARNING_STATUS
         else PASSING_STATUS)"

text \<open>
  \<^verbatim>\<open>self.last_alert_sent and (now - timedelta(minutes=m)) < self.last_alert_sent\<close>:
  a datetime is always true, so the conjunction is false exactly on \<open>None\<close>.
\<close>

definition sent_within :: "int option \<Rightarrow> int \<Rightarrow> int \<Rightarrow> bool" where
  "sent_within last_sent now m =
     (case last_sent of None \<Rightarrow> False | Some t \<Rightarrow> now - minutes m < t)"

text \<open>
  The last five lines of \<^verbatim>\<open>Service.alert\<close>, reached when no \<^verbatim>\<open>return\<close>
  was taken: save the service, mark and save the snapshot, call
  \<^verbatim>\<open>send_alert\<close> with the duty officers (\<open>now_duty\<close> is the clock reading of
  \<^verbatim>\<open>get_duty_officers\<close>).
\<close>

definition alert_send :: "int \<Rightarrow> shift list \<Rightarrow> user_profile list \<Rightarrow> service \<Rightarrow> outcome" where
  "alert_send now_duty shifts profiles self =
     (case snapshot self of
        None \<Rightarrow> \<lparr>svc = self, effects = [ServiceSaved self], raised = Some AttributeError\<rparr>
      | Some sn \<Rightarrow>
          (let sn' = sn\<lparr>did_send_alert := True\<rparr>;
               self' = self\<lparr>snapshot := Some sn'\<rparr>
           in case get_duty_officers None now_duty shifts profiles of
                Inl e \<Rightarrow>
                  \<lparr>svc = self', effects = [ServiceSaved self, SnapshotSaved sn'],
                   raised = Some e\<rparr>
              | Inr officers \<Rightarrow>
                  \<lparr>svc = self',
                   effects = [ServiceSaved self, SnapshotSaved sn', AlertSent self' officers],
                   raised = None\<rparr>))"

text \<open>
  \<^verbatim>\<open>Service.alert\<close>. \<open>now_cmp\<close> is the clock reading of the cooldown
  comparison and \<open>now_set\<close> the one assigned to \<^verbatim>\<open>last_alert_sent\<close>.
\<close>

definition alert ::
    "int \<Rightarrow> int \<Rightarrow> int \<Rightarrow> shift list \<Rightarrow> user_profile list \<Rightarrow> service \<Rightarrow> outcome" where
  "alert now_cmp now_set now_duty shifts profiles self =
     (if \<not> alerts_enabled self then \<lparr>svc = self, effects = [], raised = None\<rparr>
      else if overall_status self \<noteq> PASSING_STATUS then
        (if overall_status self = WARNING_STATUS then
           (if sent_within (last_alert_sent self) now_cmp 120
            then \<lparr>svc = self, effects = [], raised = None\<rparr>
            else alert_send now_duty shifts profiles (self\<lparr>last_alert_sent := Some now_set\<rparr>))
         else if overall_status self \<in> set [CRITICAL_STATUS, ERROR_STATUS] then
           (if sent_within (last_alert_sent self) now_cmp 10
            then \<lparr>svc = self, effects = [], raised = None\<rparr>
            else alert_send now_duty shifts profiles (self\<lparr>last_alert_sent := Some now_set\<rparr>))
         else alert_send now_duty shifts profiles (self\<lparr>last_alert_sent := Some now_set\<rparr>))
      else alert_send now_duty shifts profiles (self\<lparr>last_alert_sent := None\<rparr>))"

text \<open>
  \<^verbatim>\<open>Service.update_status\<close>; \<open>now_snap\<close> is the clock reading stored in the
  snapshot.
\<close>

definition update_status ::
    "int \<Rightarrow> int \<Rightarrow> int \<Rightarrow> int \<Rightarrow> shift list \<Rightarrow> user_profile list \<Rightarrow> service \<Rightarrow> outcome" where
  "update_status now_snap now_cmp now_set now_duty shifts profiles self0 =
     (let self1 = self0\<lparr>old_overall_status := overall_status self0\<rparr>;
          status_checks_failed_count = int (length (all_failing_checks self1));
          self2 = self1\<lparr>overall_status := most_severe (all_failing_checks self1)\<rparr>;
          sn = \<lparr>snapshot_time = now_snap,
                num_checks_active = int (length (active_status_checks self2)),
                num_checks_passing =
                  int (length (active_status_checks self2)) - status_checks_failed_count,
                num_checks_failing = status_checks_failed_count,
                snapshot_overall_status = overall_status self2,
                did_send_alert = False\<rparr>;
          self3 = self2\<lparr>snapshot := Some sn\<rparr>
      in if \<not> (overall_status self3 = PASSING_STATUS
                \<and> old_overall_status self3 = PASSING_STATUS)
         then (let r = alert now_cmp now_set now_duty shifts profiles self3
               in r\<lparr>effects := [SnapshotSaved sn, ServiceSaved self3] @ effects r\<rparr>)
         else \<lparr>svc = self3, effects = [SnapshotSaved sn, ServiceSaved self3], raised = None\<rparr>)"

section \<open>Text: formatting and parsing\<close>

text \<open>
  \<^verbatim>\<open>fmt % args\<close> for the templates of the source that hold only \<^verbatim>\<open>%s\<close>:
  the arguments are given as the texts \<^verbatim>\<open>str\<close> makes of them, and a single
  argument that is not a tuple is a list of one. Too few arguments and arguments left
  over ("not all arguments converted during string formatting") are both
  \<^verbatim>\<open>TypeError\<close>; a conversion that is not \<^verbatim>\<open>%s\<close> or \<^verbatim>\<open>%%\<close> is not
  needed by those templates and is \<^verbatim>\<open>ValueError\<close> here.
\<close>

fun py_format :: "string \<Rightarrow> string list \<Rightarrow> py_error + string" where
  "py_format [] [] = Inr []"
| "py_format [] (a # as) = Inl TypeError"
| "py_format (c # cs) args =
     (if c \<noteq> CHR ''%'' then map_sum id ((#) c) (py_format cs args)
      else (case cs of
              [] \<Rightarrow> Inl ValueError
            | d # ds \<Rightarrow>
                if d = CHR ''s'' then
                  (case args of
                     [] \<Rightarrow> Inl TypeError
                   | a # as \<Rightarrow> map_sum id ((@) a) (py_format ds as))
                else if d = CHR ''%'' then map_sum id ((#) (CHR ''%'')) (py_format ds args)
                else Inl ValueError))"

text \<open>\<^verbatim>\<open>str\<close> of an integer: its decimal digits.\<close>

definition digit_char :: "nat \<Rightarrow> char" where
  "digit_char n = ''0123456789'' ! n"

function str_nat :: "nat \<Rightarrow> string" where
  "str_nat n = (if n < 10 then [digit_char n] else str_nat (n div 10) @ [digit_char (n mod 10)])"
  by pat_completeness auto
termination
  by (relation "measure (\<lambda>n. n)") auto

declare str_nat.simps [simp del]

definition str_int :: "int \<Rightarrow> string" where
  "str_int i = (if i < 0 then CHR ''-'' # str_nat (nat (- i)) else str_nat (nat i))"

text \<open>
  Numbers of the metrics backend and thresholds are Python floats; the model takes
  them as rationals, which every finite float is. Infinities, NaN, the negative zero
  and the rounding of arithmetic are outside the model; the embedded code only
  compares these numbers and prints them.

  \<^verbatim>\<open>"%0.1f" % x\<close>: the decimal with one digit after the point nearest to \<open>x\<close>
  (a tie, which no binary float produces, goes to the even digit).
\<close>

definition round_half_even :: "rat \<Rightarrow> int" where
  "round_half_even y =
     (let f = \<lfloor>y\<rfloor>; r = y - of_int f
      in if r < 1 / 2 then f else if 1 / 2 < r then f + 1
         else if even f then f else f + 1)"

definition fmt_f1 :: "rat \<Rightarrow> string" where
  "fmt_f1 x =
     (let n = nat (round_half_even (\<bar>x\<bar> * 10))
      in (if x < 0 then ''-'' else []) @ str_nat (n div 10) @ ''.'' @ str_nat (n mod 10))"

text \<open>
  \<^verbatim>\<open>str.strip()\<close> and \<^verbatim>\<open>str.lower()\<close> on text whose characters are bytes:
  the six ASCII white-space characters are stripped and the letters A to Z are
  lowered.
\<close>

definition is_space :: "char \<Rightarrow> bool" where
  "is_space c = (c \<in> set [CHR '' '', CHR 0x09, CHR 0x0A, CHR 0x0B, CHR 0x0C, CHR 0x0D])"

definition py_strip :: "string \<Rightarrow> string" where
  "py_strip s = rev (dropWhile is_space (rev (dropWhile is_space s)))"

definition lower_char :: "char \<Rightarrow> char" where
  "lower_char c =
     (case map_of (zip ''ABCDEFGHIJKLMNOPQRSTUVWXYZ'' ''abcdefghijklmnopqrstuvwxyz'') c of
        None \<Rightarrow> c
      | Some l \<Rightarrow> l)"

definition py_lower :: "string \<Rightarrow> string" where
  "py_lower s = map lower_char s"

text \<open>
  \<^verbatim>\<open>float(s)\<close> on a text \<open>s\<close>, for plain decimal literals: white space around,
  an optional sign, digits with at most one point and at least one digit. Python
  also reads exponents, \<^verbatim>\<open>inf\<close> and \<^verbatim>\<open>nan\<close>; those texts are
  \<^verbatim>\<open>ValueError\<close> here, and no theorem below is about them. The value is the
  exact decimal, where \<^verbatim>\<open>float\<close> gives the nearest double: the two agree on
  the literals that are binary fractions, such as \<^verbatim>\<open>4.0\<close>.
\<close>

definition digit_val :: "char \<Rightarrow> nat option" where
  "digit_val c =
     map_of [(CHR ''0'', 0), (CHR ''1'', 1), (CHR ''2'', 2), (CHR ''3'', 3), (CHR ''4'', 4),
             (CHR ''5'', 5), (CHR ''6'', 6), (CHR ''7'', 7), (CHR ''8'', 8), (CHR ''9'', 9)] c"

fun digits_val :: "nat \<Rightarrow> string \<Rightarrow> nat option" where
  "digits_val acc [] = Some acc"
| "digits_val acc (c # cs) =
     (case digit_val c of None \<Rightarrow> None | Some d \<Rightarrow> digits_val (acc * 10 + d) cs)"

definition py_float :: "string \<Rightarrow> py_error + rat" where
  "py_float s =
     (let s1 = py_strip s;
          negative = (s1 \<noteq> [] \<and> hd s1 = CHR ''-'');
          body = (if s1 \<noteq> [] \<and> (hd s1 = CHR ''-'' \<or> hd s1 = CHR ''+'') then tl s1 else s1);
          ip = takeWhile (\<lambda>c. c \<noteq> CHR ''.'') body;
          fp = drop 1 (dropWhile (\<lambda>c. c \<noteq> CHR ''.'') body)
      in if ip = [] \<and> fp = [] then Inl ValueError
         else (case (digits_val 0 ip, digits_val 0 fp) of
                 (Some a, Some b) \<Rightarrow>
                   Inr ((if negative then - 1 else 1)
                        * (of_nat a + of_nat b / of_nat (10 ^ length fp)))
               | _ \<Rightarrow> Inl ValueError))"

section \<open>Running a check\<close>

text \<open>
  A run is given the check and its result set and returns both as they are after
  the run, with the exception that left \<^verbatim>\<open>run\<close>, if any. The readings of the
  clock are the parameters \<open>start'\<close> (the local \<^verbatim>\<open>start\<close>) and \<open>finish\<close>.
\<close>

record run_outcome =
  check_after :: status_check
  results_after :: "status_check_result list"
  run_raised :: "py_error option"

text \<open>\<^verbatim>\<open>StatusCheckResult(check=self, time=start)\<close>, with the defaults of the columns.\<close>

definition new_result :: "int \<Rightarrow> status_check_result" where
  "new_result start' =
     \<lparr>time = start', time_complete = None, raw_data = None, succeeded = False,
      error = None, average_value = None, actual_hosts = None, failure_value = None\<rparr>"

text \<open>
  The end of every run: \<^verbatim>\<open>result.save()\<close>, \<^verbatim>\<open>self.last_run = finish\<close>,
  and the \<^verbatim>\<open>save\<close> of \<^verbatim>\<open>StatusCheck\<close>.
\<close>

definition save_result ::
    "int \<Rightarrow> status_check \<Rightarrow> status_check_result \<Rightarrow> status_check_result list \<Rightarrow> run_outcome" where
  "save_result finish self result rows =
     (let rows' = rows @ [result];
          self' = self\<lparr>last_run := Some finish\<rparr>
      in case StatusCheck_save self' rows' of
           Inl e \<Rightarrow> \<lparr>check_after = self', results_after = rows', run_raised = Some e\<rparr>
         | Inr saved \<Rightarrow> \<lparr>check_after = saved, results_after = rows', run_raised = None\<rparr>)"

text \<open>An exception that leaves \<^verbatim>\<open>run\<close> before anything was saved.\<close>

definition run_raises :: "py_error \<Rightarrow> status_check \<Rightarrow> status_check_result list \<Rightarrow> run_outcome" where
  "run_raises e self rows = \<lparr>check_after = self, results_after = rows, run_raised = Some e\<rparr>"

subsection \<open>The build check\<close>

text \<open>
  What \<^verbatim>\<open>get_job_status(self.name)\<close> does: it raises
  \<^verbatim>\<open>requests.HTTPError\<close> (the job is not found), raises something else, or
  returns the status dictionary.
\<close>

datatype job_reply = RaisesHTTPError | RaisesOther | Returns job_status

text \<open>Truth of a number that may be \<open>None\<close>: neither \<open>None\<close> nor zero.\<close>

definition truthy :: "int option \<Rightarrow> bool" where
  "truthy v = (case v of None \<Rightarrow> False | Some n \<Rightarrow> n \<noteq> 0)"

text \<open>
  The \<^verbatim>\<open>else\<close> branch of \<^verbatim>\<open>JenkinsStatusCheck.run\<close> for a job that is
  active: the queue test, then the job's own outcome.
\<close>

definition active_job_result ::
    "status_check \<Rightarrow> job_status \<Rightarrow> status_check_result \<Rightarrow> py_error + status_check_result" where
  "active_job_result self status result =
     (let blocked =
            (if truthy (max_queued_build_time self) \<and> truthy (blocked_build_time status)
                \<and> the (blocked_build_time status) > the (max_queued_build_time self) * 60
             then map_sum id
                    (\<lambda>msg. result\<lparr>succeeded := False, error := Some msg\<rparr>)
                    (py_format ''Job \"%s\" has blocked build waiting for %ss (> %sm)''
                       [name self, str_int (the (blocked_build_time status)),
                        str_int (the (max_queued_build_time self))])
             else Inr (result\<lparr>succeeded := job_succeeded status\<rparr>))
      in case blocked of
           Inl e \<Rightarrow> Inl e
         | Inr result1 \<Rightarrow>
             if \<not> job_succeeded status then
               (case py_format ''Job \"%s\" failing on Jenkins'' [name self] of
                  Inl e \<Rightarrow> Inl e
                | Inr msg \<Rightarrow>
                    Inr (result1\<lparr>error :=
                                   (if error result1 \<noteq> None \<and> error result1 \<noteq> Some []
                                    then Some (the (error result1) @ ''; '' @ msg)
                                    else Some msg),
                                 raw_data := Some (RawStatus status)\<rparr>))
             else Inr result1)"

text \<open>\<^verbatim>\<open>JenkinsStatusCheck.run\<close>; \<open>reply\<close> is what the build server does.\<close>

definition JenkinsStatusCheck_run ::
    "int \<Rightarrow> int \<Rightarrow> job_reply \<Rightarrow> status_check \<Rightarrow> status_check_result list \<Rightarrow> run_outcome" where
  "JenkinsStatusCheck_run start' finish reply self rows =
     (let result = new_result start'
      in case reply of
           RaisesHTTPError \<Rightarrow>
             (case py_format ''Job %s not found on Jenkins'' [name self] of
                Inl e \<Rightarrow> run_raises e self rows
              | Inr msg \<Rightarrow>
                  save_result finish self
                    (result\<lparr>error := Some msg, succeeded := False,
                            time_complete := Some finish\<rparr>) rows)
         | RaisesOther \<Rightarrow>
             save_result finish self
               (result\<lparr>error := Some ''Error fetching from Jenkins'', succeeded := True,
                       time_complete := Some finish\<rparr>) rows
         | Returns status \<Rightarrow>
             (case (if \<not> job_active status then
                      map_sum id (\<lambda>msg. result\<lparr>error := Some msg, succeeded := False\<rparr>)
                        (py_format ''Job disabled on Jenkins'' [name self])
                    else active_job_result self status result) of
                Inl e \<Rightarrow> run_raises e self rows
              | Inr result1 \<Rightarrow>
                  save_result finish self (result1\<lparr>time_complete := Some finish\<rparr>) rows))"

subsection \<open>The metric check\<close>

text \<open>
  The answer of \<^verbatim>\<open>parse_metric\<close> (spec, section 6); \<open>raw\<close> is opaque, and
  \<^verbatim>\<open>json.dumps\<close> of it is taken as that text.
\<close>

record series =
  series_error :: bool
  num_series_with_data :: int
  series_min :: rat
  series_max :: rat
  series_average_value :: rat
  all_values :: "rat list"
  raw :: string

text \<open>
  \<^verbatim>\<open>float(self.value)\<close> on the nullable text column; \<^verbatim>\<open>float(None)\<close> raises
  \<^verbatim>\<open>TypeError\<close>.
\<close>

definition float_value :: "status_check \<Rightarrow> py_error + rat" where
  "float_value self =
     (case check_value self of None \<Rightarrow> Inl TypeError | Some s \<Rightarrow> py_float s)"

text \<open>
  Comparisons of Python 2 with \<^verbatim>\<open>None\<close>, which is smaller than every number:
  \<^verbatim>\<open>e > 0\<close> and \<^verbatim>\<open>n < e\<close> for a nullable \<open>e\<close>.
\<close>

definition opt_gt :: "int option \<Rightarrow> int \<Rightarrow> bool" where
  "opt_gt e k = (case e of None \<Rightarrow> False | Some v \<Rightarrow> v > k)"

definition lt_opt :: "int \<Rightarrow> int option \<Rightarrow> bool" where
  "lt_opt n e = (case e of None \<Rightarrow> False | Some v \<Rightarrow> n < v)"

text \<open>\<^verbatim>\<open>'%s' % x\<close> for a nullable number or text.\<close>

definition str_opt_int :: "int option \<Rightarrow> string" where
  "str_opt_int e = (case e of None \<Rightarrow> ''None'' | Some v \<Rightarrow> str_int v)"

definition str_opt :: "string option \<Rightarrow> string" where
  "str_opt e = (case e of None \<Rightarrow> ''None'' | Some v \<Rightarrow> v)"

text \<open>
  \<^verbatim>\<open>GraphiteStatusCheck.format_error_message\<close>. The last template,
  \<^verbatim>\<open>"%0.1f %s %0.1f%s"\<close> with its four arguments, is written as the text it
  produces.
\<close>

definition format_error_message ::
    "status_check \<Rightarrow> rat option \<Rightarrow> int \<Rightarrow> py_error + string" where
  "format_error_message self failure_value' actual_hosts' =
     (case failure_value' of
        None \<Rightarrow> Inr ''Failed to get metric from Graphite''
      | Some fv \<Rightarrow>
          (case (if opt_gt (expected_num_hosts self) 0
                 then py_format '' | %s/%s hosts''
                        [str_int actual_hosts', str_opt_int (expected_num_hosts self)]
                 else Inr []) of
             Inl e \<Rightarrow> Inl e
           | Inr hosts_string \<Rightarrow>
               (case float_value self of
                  Inl e \<Rightarrow> Inl e
                | Inr v \<Rightarrow>
                    Inr (fmt_f1 fv @ '' '' @ str_opt (check_type self) @ '' '' @ fmt_f1 v
                         @ hosts_string))))"

text \<open>
  The comparison of \<^verbatim>\<open>GraphiteStatusCheck.run\<close>, made when at least one
  series has data: \<^verbatim>\<open>failed\<close> and \<^verbatim>\<open>failure_value\<close>, or the exception for
  a check type that is not supported.
\<close>

definition compare_series :: "status_check \<Rightarrow> series \<Rightarrow> py_error + bool \<times> rat option" where
  "compare_series self s =
     (if check_type self = Some ''<'' then
        map_sum id (\<lambda>v. (series_min s < v, if series_min s < v then Some (series_min s) else None))
          (float_value self)
      else if check_type self = Some ''<='' then
        map_sum id (\<lambda>v. (series_min s \<le> v, if series_min s \<le> v then Some (series_min s) else None))
          (float_value self)
      else if check_type self = Some ''>'' then
        map_sum id (\<lambda>v. (series_max s > v, if series_max s > v then Some (series_max s) else None))
          (float_value self)
      else if check_type self = Some ''>='' then
        map_sum id (\<lambda>v. (series_max s \<ge> v, if series_max s \<ge> v then Some (series_max s) else None))
          (float_value self)
      else if check_type self = Some ''=='' then
        map_sum id (\<lambda>v. (v \<in> set (all_values s), if v \<in> set (all_values s) then Some v else None))
          (float_value self)
      else Inl UnsupportedCheckType)"

text \<open>
  \<^verbatim>\<open>GraphiteStatusCheck.run\<close>; \<open>s\<close> is the answer of \<^verbatim>\<open>parse_metric\<close>.
  \<^verbatim>\<open>failed\<close> is \<open>None\<close>, \<open>True\<close> or \<open>False\<close>, and \<^verbatim>\<open>not failed\<close> is
  true on \<open>None\<close>.
\<close>

definition GraphiteStatusCheck_run ::
    "int \<Rightarrow> int \<Rightarrow> series \<Rightarrow> status_check \<Rightarrow> status_check_result list \<Rightarrow> run_outcome" where
  "GraphiteStatusCheck_run start' finish s self rows =
     (let failed0 = (if series_error s then Some True else None);
          result = (new_result start')\<lparr>time_complete := Some finish\<rparr>
      in case (if num_series_with_data s > 0
               then map_sum id
                      (\<lambda>(failed, fv).
                         (Some failed, fv,
                          result\<lparr>average_value := Some (series_average_value s)\<rparr>))
                      (compare_series self s)
               else Inr (failed0, None, result)) of
           Inl e \<Rightarrow> run_raises e self rows
         | Inr (failed1, failure_value', result1) \<Rightarrow>
             (let failed2 = (if lt_opt (num_series_with_data s) (expected_num_hosts self)
                             then Some True else failed1);
                  result2 = result1\<lparr>raw_data := Some (RawText (raw s)),
                                    succeeded := (failed2 \<noteq> Some True)\<rparr>
              in case (if \<not> succeeded result2
                       then map_sum id (\<lambda>msg. result2\<lparr>error := Some msg\<rparr>)
                              (format_error_message self failure_value' (num_series_with_data s))
                       else Inr result2) of
                   Inl e \<Rightarrow> run_raises e self rows
                 | Inr result3 \<Rightarrow>
                     save_result finish self
                       (result3\<lparr>actual_hosts := Some (num_series_with_data s),
                                failure_value := failure_value'\<rparr>) rows))"

section \<open>User profiles: the fallback flag\<close>

text \<open>
  The table of profiles is the list of its rows. A new row gets a key larger than
  every key in the table.
\<close>

definition next_profile_id :: "user_profile list \<Rightarrow> nat" where
  "next_profile_id table =
     Suc (fold max (map (\<lambda>r. case profile_id r of None \<Rightarrow> 0 | Some i \<Rightarrow> i) table) 0)"

text \<open>
  The \<^verbatim>\<open>save\<close> of the base class: a row with the object's key is replaced,
  otherwise the object is inserted, with a new key when it has none. It returns the
  object and the table.
\<close>

definition Model_save :: "user_profile \<Rightarrow> user_profile list \<Rightarrow> user_profile \<times> user_profile list" where
  "Model_save self table =
     (case profile_id self of
        None \<Rightarrow>
          (let self' = self\<lparr>profile_id := Some (next_profile_id table)\<rparr>
           in (self', table @ [self']))
      | Some i \<Rightarrow>
          if list_ex (\<lambda>r. profile_id r = Some i) table
          then (self, map (\<lambda>r. if profile_id r = Some i then self else r) table)
          else (self, table @ [self]))"

text \<open>
  \<^verbatim>\<open>UserProfile.save\<close>. \<^verbatim>\<open>UserProfile.objects.exclude(id=self.id)\<close> is the
  rows whose key differs from the object's; for an object without a key that is
  every row.
\<close>

definition UserProfile_save ::
    "user_profile \<Rightarrow> user_profile list \<Rightarrow> user_profile \<times> user_profile list" where
  "UserProfile_save self0 table =
     (let self1 = (if mobile_number self0 \<noteq> [] \<and> hd (mobile_number self0) = CHR ''+''
                   then self0\<lparr>mobile_number := tl (mobile_number self0)\<rparr> else self0);
          table1 = (if fallback_alert_user self1
                    then map (\<lambda>r. if profile_id r \<noteq> profile_id self1
                                   then r\<lparr>fallback_alert_user := False\<rparr> else r) table
                    else table)
      in Model_save self1 table1)"

text \<open>A sequence of saves, each on the table the one before left.\<close>

fun save_all :: "user_profile list \<Rightarrow> user_profile list \<Rightarrow> user_profile list" where
  "save_all [] table = table"
| "save_all (p # ps) table = save_all ps (snd (UserProfile_save p table))"

section \<open>The shift synchronizer\<close>

text \<open>An event of the calendar feed (spec, section 6): \<^verbatim>\<open>{uid, summary, start, end}\<close>.\<close>

record event =
  event_uid :: string
  summary :: string
  event_start :: int
  event_end :: int

text \<open>
  The dictionary \<^verbatim>\<open>user_lookup\<close>: the active users by lowered user name, a later
  user replacing an earlier one under the same key.
\<close>

definition user_lookup :: "user list \<Rightarrow> (string \<rightharpoonup> user)" where
  "user_lookup users =
     fold (\<lambda>u m. m(py_lower (username u) \<mapsto> u)) (filter is_active users) Map.empty"

text \<open>
  The rows that \<^verbatim>\<open>Shift.objects.get(uid=u)\<close> finds, by their keys (positions):
  none is \<^verbatim>\<open>DoesNotExist\<close>, one is the row, more raise
  \<^verbatim>\<open>MultipleObjectsReturned\<close>.
\<close>

definition uid_rows :: "string \<Rightarrow> shift list \<Rightarrow> nat list" where
  "uid_rows u table = filter (\<lambda>i. uid (table ! i) = u) [0..<length table]"

text \<open>
  The loop of \<^verbatim>\<open>update_shifts\<close> over the events. It returns the table and the
  exception that left the loop, if any; the rows saved before the exception stay.
\<close>

fun upsert_events ::
    "(string \<rightharpoonup> user) \<Rightarrow> event list \<Rightarrow> shift list \<Rightarrow> shift list \<times> py_error option" where
  "upsert_events lookup [] table = (table, None)"
| "upsert_events lookup (event # events) table =
     (case lookup (py_strip (py_lower (summary event))) of
        None \<Rightarrow> upsert_events lookup events table
      | Some user' \<Rightarrow>
          (case uid_rows (event_uid event) table of
             [] \<Rightarrow>
               upsert_events lookup events
                 (table @ [\<lparr>start = event_start event, end' = event_end event, user = user',
                            uid = event_uid event, deleted = False\<rparr>])
           | [i] \<Rightarrow>
               upsert_events lookup events
                 (table[i := (table ! i)\<lparr>start := event_start event, end' := event_end event,
                                          user := user', deleted := False\<rparr>])
           | _ \<Rightarrow> (table, Some MultipleObjectsReturned)))"

text \<open>
  \<^verbatim>\<open>update_shifts\<close>; \<open>now\<close> is the clock reading, \<open>events\<close> the feed and
  \<open>users\<close> the table of users.
\<close>

definition update_shifts ::
    "int \<Rightarrow> event list \<Rightarrow> user list \<Rightarrow> shift list \<Rightarrow> shift list \<times> py_error option" where
  "update_shifts now events users table =
     upsert_events (user_lookup users) events
       (map (\<lambda>s. if start s > now then s\<lparr>deleted := True\<rparr> else s) table)"

section \<open>Notions used to state and prove the properties\<close>

text \<open>The order of the statuses that the specification fixes.\<close>

definition severity :: "string \<Rightarrow> nat" where
  "severity s =
     (if s = CRITICAL_STATUS then 3 else if s = ERROR_STATUS then 2
      else if s = WARNING_STATUS then 1 else 0)"

text \<open>
  The keys of a table are primary keys: no two rows share one and every row has one.
  \<open>fallback_count\<close> is the number of profiles with the fallback flag set.
\<close>

definition primary_keys :: "user_profile list \<Rightarrow> bool" where
  "primary_keys table \<longleftrightarrow>
     distinct (map profile_id table) \<and> None \<notin> set (map profile_id table)"

definition fallback_count :: "user_profile list \<Rightarrow> nat" where
  "fallback_count table = length (filter fallback_alert_user table)"

text \<open>
  For the proof that the synchronizer is idempotent: the key an event is looked up
  under, the row an event leaves for its uid, and the uids of the events that were
  upserted before the loop ended.
\<close>

definition event_key :: "event \<Rightarrow> string" where
  "event_key e = py_strip (py_lower (summary e))"

definition event_shift :: "event \<Rightarrow> user \<Rightarrow> shift" where
  "event_shift e u =
     \<lparr>start = event_start e, end' = event_end e, user = u, uid = event_uid e,
      deleted = False\<rparr>"

fun touched :: "(string \<rightharpoonup> user) \<Rightarrow> event list \<Rightarrow> shift list \<Rightarrow> string set" where
  "touched lk [] table = {}"
| "touched lk (e # es) table =
     (case lk (event_key e) of
        None \<Rightarrow> touched lk es table
      | Some u \<Rightarrow>
          (case uid_rows (event_uid e) table of
             [] \<Rightarrow> insert (event_uid e) (touched lk es (table @ [event_shift e u]))
           | [i] \<Rightarrow> insert (event_uid e) (touched lk es (table[i := event_shift e u]))
           | _ \<Rightarrow> {}))"

subsection \<open>Concrete values used by the witnesses\<close>

definition failed_result :: "int \<Rightarrow> status_check_result" where
  "failed_result t =
     \<lparr>time = t, time_complete = Some t, raw_data = None, succeeded = False,
      error = None, average_value = None, actual_hosts = None, failure_value = None\<rparr>"

definition example_check :: status_check where
  "example_check =
     \<lparr>name = ''web'', active = True, importance = ''ERROR'', frequency = 5,
      debounce = Some 0, calculated_status = ''passing'', last_run = None,
      cached_health = None, metric = None, check_type = None, check_value = None,
      expected_num_hosts = Some 0, max_queued_build_time = None\<rparr>"

definition ten_failures :: "status_check_result list" where
  "ten_failures = map failed_result [1, 2, 3, 4, 5, 6, 7, 8, 9, 10]"

definition example_service :: service where
  "example_service =
     \<lparr>service_name = ''shop'', alerts_enabled = True, overall_status = ''PASSING'',
      old_overall_status = ''PASSING'', last_alert_sent = None,
      status_checks =
        [example_check\<lparr>importance := ''WARNING'', calculated_status := ''failing''\<rparr>,
         example_check\<lparr>importance := ''ERROR'', calculated_status := ''failing''\<rparr>,
         example_check\<lparr>importance := ''CRITICAL'', calculated_status := ''failing'',
                        active := False\<rparr>,
         example_check\<lparr>importance := ''CRITICAL''\<rparr>],
      snapshot = None\<rparr>"

definition example_snapshot :: service_status_snapshot where
  "example_snapshot =
     \<lparr>snapshot_time = 5, num_checks_active = 3, num_checks_passing = 1,
      num_checks_failing = 2, snapshot_overall_status = ''ERROR'', did_send_alert = False\<rparr>"

definition fallback_profile :: user_profile where
  "fallback_profile =
     \<lparr>profile_id = Some 1, profile_user = 1, mobile_number = ''447700900000'',
      hipchat_alias = ''ops'', fallback_alert_user = True\<rparr>"

definition erroring_service :: service where
  "erroring_service =
     example_service\<lparr>overall_status := ''ERROR'', old_overall_status := ''ERROR'',
       last_alert_sent := Some 1000, snapshot := Some example_snapshot\<rparr>"

definition recovered_service :: service where
  "recovered_service =
     example_service\<lparr>overall_status := ''PASSING'', old_overall_status := ''ERROR'',
       last_alert_sent := Some 1000, status_checks := [],
       snapshot := Some (example_snapshot\<lparr>num_checks_active := 0, num_checks_passing := 0,
         num_checks_failing := 0, snapshot_overall_status := ''PASSING''\<rparr>)\<rparr>"

definition metric_check :: status_check where
  "metric_check =
     example_check\<lparr>name := ''load'', metric := Some ''stats.load'', check_type := Some ''>'',
       check_value := Some ''4.0'', expected_num_hosts := Some 1\<rparr>"

definition one_series :: series where
  "one_series =
     \<lparr>series_error = False, num_series_with_data = 1, series_min = 5, series_max = 5,
      series_average_value = 5, all_values = [5], raw = ''[]''\<rparr>"


definition profile_table :: "user_profile list" where
  "profile_table =
     [fallback_profile,
      \<lparr>profile_id = Some 2, profile_user = 2, mobile_number = ''447700900001'',
       hipchat_alias = ''bob'', fallback_alert_user = False\<rparr>]"

definition new_fallback :: user_profile where
  "new_fallback =
     \<lparr>profile_id = None, profile_user = 3, mobile_number = ''+447700900002'',
      hipchat_alias = ''carol'', fallback_alert_user = True\<rparr>"

section \<open>The debounce evaluator\<close>

lemma any_succeeded_iff: "any_succeeded rs \<longleftrightarrow> (\<exists>r \<in> set rs. succeeded r)"
  by (induction rs) auto

text \<open>
  C2. Applied to a most-recent-first history and a debounce value \<open>d\<close> (a count,
  \<open>0 \<le> d\<close>), the evaluator returns passing (\<open>True\<close>) when the history is empty,
  passing when one of the first \<open>d + 1\<close> results succeeded, and failing (\<open>False\<close>)
  otherwise, that is exactly when the history is not empty and all of its first
  \<open>d + 1\<close> results are failures. It never raises.
\<close>

theorem calculate_debounced_passing_spec:
  "0 \<le> d \<Longrightarrow>
     calculate_debounced_passing [] (Some d) = Inr True
   \<and> ((\<exists>r \<in> set (take (nat d + 1) h). succeeded r) \<longrightarrow>
        calculate_debounced_passing h (Some d) = Inr True)
   \<and> (calculate_debounced_passing h (Some d) = Inr False \<longleftrightarrow>
        h \<noteq> [] \<and> (\<forall>r \<in> set (take (nat d + 1) h). \<not> succeeded r))
   \<and> (calculate_debounced_passing h (Some d) = Inr True
        \<or> calculate_debounced_passing h (Some d) = Inr False)"
proof -
  assume "0 \<le> d"
  then have w: "py_slice_to h (d + 1) = take (nat d + 1) h"
    by (simp add: py_slice_to_def nat_add_distrib)
  show ?thesis
    by (auto simp: calculate_debounced_passing_def w any_succeeded_iff)
qed

theorem calculate_debounced_passing_spec_witness:
  "(0::int) \<le> 1
   \<and> calculate_debounced_passing [] (Some 1) = Inr True
   \<and> calculate_debounced_passing
        [failed_result 30, (failed_result 20)\<lparr>succeeded := True\<rparr>, failed_result 10]
        (Some 1) = Inr True
   \<and> calculate_debounced_passing
        [failed_result 30, failed_result 20, (failed_result 10)\<lparr>succeeded := True\<rparr>]
        (Some 1) = Inr False"
  using calculate_debounced_passing_spec [of 1
      "[failed_result 30, (failed_result 20)\<lparr>succeeded := True\<rparr>, failed_result 10]"]
    calculate_debounced_passing_spec [of 1
      "[failed_result 30, failed_result 20, (failed_result 10)\<lparr>succeeded := True\<rparr>]"]
  by (simp add: failed_result_def)

section \<open>The save path of a check\<close>

lemma length_order_by_time_complete_desc [simp]:
  "length (order_by_time_complete_desc h) = length h"
  by (simp add: order_by_time_complete_desc_def)

text \<open>
  C10. The row that \<^verbatim>\<open>StatusCheck.save\<close> writes (calculated status and cached
  summary) depends only on \<open>recent_results\<close>, the ten most recently completed
  results: two result sets with the same ten give the same row. So a debounce
  \<open>d \<ge> 9\<close> gives the calculated status and the summary that debounce 9 gives, and
  ten most recent results that all failed mark the check failing whatever the
  debounce \<open>d \<ge> 0\<close> is.
\<close>

theorem StatusCheck_save_window:
  "(recent_results h1 = recent_results h2 \<longrightarrow> StatusCheck_save c h1 = StatusCheck_save c h2)
   \<and> (9 \<le> d \<longrightarrow>
        (\<exists>c9 cd. StatusCheck_save (c\<lparr>debounce := Some 9\<rparr>) h = Inr c9
                \<and> StatusCheck_save (c\<lparr>debounce := Some d\<rparr>) h = Inr cd
                \<and> calculated_status cd = calculated_status c9
                \<and> cached_health cd = cached_health c9))
   \<and> (0 \<le> d \<and> 10 \<le> length h
        \<and> (\<forall>r \<in> set (take 10 (order_by_time_complete_desc h)). \<not> succeeded r) \<longrightarrow>
        (\<exists>c'. StatusCheck_save (c\<lparr>debounce := Some d\<rparr>) h = Inr c'
              \<and> calculated_status c' = CALCULATED_FAILING_STATUS))"
proof (intro conjI impI)
  assume "recent_results h1 = recent_results h2"
  then show "StatusCheck_save c h1 = StatusCheck_save c h2"
    by (simp add: StatusCheck_save_def)
next
  assume d: "9 \<le> d"
  have len: "length (recent_results h) \<le> 10"
    by (simp add: recent_results_def)
  have "py_slice_to (recent_results h) (d + 1) = recent_results h"
    using d len by (simp add: py_slice_to_def)
  moreover have "py_slice_to (recent_results h) (9 + 1) = recent_results h"
    using len by (simp add: py_slice_to_def)
  ultimately show "\<exists>c9 cd. StatusCheck_save (c\<lparr>debounce := Some 9\<rparr>) h = Inr c9
                \<and> StatusCheck_save (c\<lparr>debounce := Some d\<rparr>) h = Inr cd
                \<and> calculated_status cd = calculated_status c9
                \<and> cached_health cd = cached_health c9"
    by (simp add: StatusCheck_save_def calculate_debounced_passing_def Let_def)
next
  assume a: "0 \<le> d \<and> 10 \<le> length h
        \<and> (\<forall>r \<in> set (take 10 (order_by_time_complete_desc h)). \<not> succeeded r)"
  then have ne: "recent_results h \<noteq> []"
    by (auto simp: recent_results_def order_by_time_complete_desc_def
          simp flip: length_0_conv)
  have "set (py_slice_to (recent_results h) (d + 1)) \<subseteq> set (recent_results h)"
    using a by (auto simp: py_slice_to_def dest: in_set_takeD)
  then have "\<not> any_succeeded (py_slice_to (recent_results h) (d + 1))"
    using a by (auto simp: any_succeeded_iff recent_results_def)
  then show "\<exists>c'. StatusCheck_save (c\<lparr>debounce := Some d\<rparr>) h = Inr c'
              \<and> calculated_status c' = CALCULATED_FAILING_STATUS"
    using ne by (simp add: StatusCheck_save_def calculate_debounced_passing_def Let_def)
qed


theorem StatusCheck_save_window_witness:
  "recent_results ((failed_result 0)\<lparr>succeeded := True\<rparr> # ten_failures) = recent_results ten_failures
   \<and> StatusCheck_save example_check ((failed_result 0)\<lparr>succeeded := True\<rparr> # ten_failures) = StatusCheck_save example_check ten_failures
   \<and> (9::int) \<le> 50 \<and> (0::int) \<le> 50 \<and> 10 \<le> length ten_failures
   \<and> list_all (\<lambda>r. \<not> succeeded r) (take 10 (order_by_time_complete_desc ten_failures))
   \<and> map_sum id calculated_status (StatusCheck_save (example_check\<lparr>debounce := Some 9\<rparr>) ten_failures) = Inr CALCULATED_FAILING_STATUS
   \<and> map_sum id calculated_status (StatusCheck_save (example_check\<lparr>debounce := Some 50\<rparr>) ten_failures) = Inr CALCULATED_FAILING_STATUS"
proof -
  have p1: "recent_results ((failed_result 0)\<lparr>succeeded := True\<rparr> # ten_failures) = recent_results ten_failures"
    by (simp add: ten_failures_def recent_results_def order_by_time_complete_desc_def failed_result_def)
  have p2: "10 \<le> length ten_failures" by (simp add: ten_failures_def)
  have p3: "\<forall>r \<in> set (take 10 (order_by_time_complete_desc ten_failures)). \<not> succeeded r"
    by (simp add: ten_failures_def order_by_time_complete_desc_def failed_result_def)
  show ?thesis
    using p1 p2 p3 p3 [unfolded Ball_set]
      StatusCheck_save_window [of "(failed_result 0)\<lparr>succeeded := True\<rparr> # ten_failures" ten_failures example_check 50 ten_failures]
    by auto
qed

section \<open>Severity aggregation\<close>

lemmas status_defs =
  PASSING_STATUS_def WARNING_STATUS_def ERROR_STATUS_def CRITICAL_STATUS_def

lemma alert_send_status:
  "overall_status (svc (alert_send td sh pr s)) = overall_status s
   \<and> old_overall_status (svc (alert_send td sh pr s)) = old_overall_status s
   \<and> status_checks (svc (alert_send td sh pr s)) = status_checks s"
  by (simp add: alert_send_def Let_def split: option.splits sum.splits)

lemma alert_status:
  "overall_status (svc (alert tc ts td sh pr s)) = overall_status s
   \<and> old_overall_status (svc (alert tc ts td sh pr s)) = old_overall_status s"
  by (simp add: alert_def alert_send_status)

lemma update_status_fields:
  "overall_status (svc (update_status tn tc ts td sh pr s)) = most_severe (all_failing_checks s)
   \<and> old_overall_status (svc (update_status tn tc ts td sh pr s)) = overall_status s"
  by (simp add: update_status_def Let_def alert_status all_failing_checks_def
        active_status_checks_def)

lemma most_severe_cases:
  "most_severe F \<in> {PASSING_STATUS, WARNING_STATUS, ERROR_STATUS, CRITICAL_STATUS}"
  by (simp add: most_severe_def Let_def)

lemma severity_most_severe:
  "severity (most_severe F) = Max (insert 0 (severity ` importance ` set F))"
proof -
  let ?S = "insert 0 (severity ` importance ` set F)"
  have fin: "finite ?S" by simp
  have le3: "\<forall>x \<in> ?S. x \<le> 3" by (auto simp: severity_def)
  show ?thesis
  proof (cases "CRITICAL_STATUS \<in> importance ` set F")
    case True
    then have "3 \<in> ?S" by (force simp: severity_def)
    then have "Max ?S = 3" using le3 fin by (meson Max_eqI)
    then show ?thesis using True by (simp add: most_severe_def severity_def)
  next
    case nc: False
    show ?thesis
    proof (cases "ERROR_STATUS \<in> importance ` set F")
      case True
      then have "2 \<in> ?S" by (force simp: severity_def status_defs)
      moreover have "\<forall>x \<in> ?S. x \<le> 2" using nc by (auto simp: severity_def)
      ultimately have "Max ?S = 2" using fin by (meson Max_eqI)
      then show ?thesis using True nc by (simp add: most_severe_def severity_def status_defs)
    next
      case ne: False
      show ?thesis
      proof (cases "WARNING_STATUS \<in> importance ` set F")
        case True
        then have "1 \<in> ?S" by (force simp: severity_def status_defs)
        moreover have "\<forall>x \<in> ?S. x \<le> 1" using nc ne by (auto simp: severity_def)
        ultimately have "Max ?S = 1" using fin by (meson Max_eqI)
        then show ?thesis using True nc ne
          by (simp add: most_severe_def severity_def status_defs)
      next
        case nw: False
        have "\<forall>x \<in> ?S. x \<le> 0" using nc ne nw by (auto simp: severity_def)
        moreover have "0 \<in> ?S" by simp
        ultimately have "Max ?S = 0" using fin by (meson Max_eqI)
        then show ?thesis using nc ne nw
          by (simp add: most_severe_def severity_def status_defs)
      qed
    qed
  qed
qed

lemma most_severe_member:
  "F \<noteq> [] \<Longrightarrow> \<forall>c \<in> set F. importance c \<in> {WARNING_STATUS, ERROR_STATUS, CRITICAL_STATUS}
     \<Longrightarrow> most_severe F \<in> importance ` set F"
  by (cases F) (auto simp: most_severe_def Let_def)

text \<open>
  C4. \<^verbatim>\<open>update_status\<close> sets the overall status to \<open>most_severe\<close> of the
  active checks whose calculated status is not passing: always one of the four
  statuses, of the largest severity found among the importances of those checks
  (\<open>CRITICAL > ERROR > WARNING > PASSING\<close>), \<open>PASSING\<close> when no active check is
  failing, and, when the importances are drawn from \<open>WARNING\<close>, \<open>ERROR\<close> and
  \<open>CRITICAL\<close>, the importance of one of the failing active checks that no other
  exceeds.
\<close>

theorem update_status_most_severe:
  "overall_status (svc (update_status tn tc ts td sh pr s)) = most_severe (all_failing_checks s)
   \<and> overall_status (svc (update_status tn tc ts td sh pr s))
        \<in> {PASSING_STATUS, WARNING_STATUS, ERROR_STATUS, CRITICAL_STATUS}
   \<and> severity (overall_status (svc (update_status tn tc ts td sh pr s)))
        = Max (insert 0 (severity ` importance ` set (all_failing_checks s)))
   \<and> (all_failing_checks s = [] \<longrightarrow>
        overall_status (svc (update_status tn tc ts td sh pr s)) = PASSING_STATUS)
   \<and> (all_failing_checks s \<noteq> []
        \<and> (\<forall>c \<in> set (all_failing_checks s).
              importance c \<in> {WARNING_STATUS, ERROR_STATUS, CRITICAL_STATUS}) \<longrightarrow>
        overall_status (svc (update_status tn tc ts td sh pr s))
          \<in> importance ` set (all_failing_checks s)
        \<and> (\<forall>c \<in> set (all_failing_checks s).
              severity (importance c)
                \<le> severity (overall_status (svc (update_status tn tc ts td sh pr s)))))"
proof -
  let ?F = "all_failing_checks s"
  have o: "overall_status (svc (update_status tn tc ts td sh pr s)) = most_severe ?F"
    by (simp add: update_status_fields)
  have m: "severity (most_severe ?F) = Max (insert 0 (severity ` importance ` set ?F))"
    by (rule severity_most_severe)
  have ub: "\<forall>c \<in> set ?F. severity (importance c) \<le> severity (most_severe ?F)"
    unfolding m by (auto intro!: Max_ge)
  have e: "?F = [] \<longrightarrow> most_severe ?F = PASSING_STATUS"
    by (simp add: most_severe_def)
  show ?thesis
    unfolding o using most_severe_cases [of ?F] m ub e most_severe_member [of ?F]
    by blast
qed

theorem update_status_most_severe_witness:
  "all_failing_checks example_service \<noteq> []
   \<and> list_all (\<lambda>c. importance c \<in> {WARNING_STATUS, ERROR_STATUS, CRITICAL_STATUS})
        (all_failing_checks example_service)
   \<and> overall_status (svc (update_status 5 6 7 8 [] [] example_service)) = ERROR_STATUS
   \<and> all_failing_checks (example_service\<lparr>status_checks := []\<rparr>) = []
   \<and> overall_status
        (svc (update_status 5 6 7 8 [] [] (example_service\<lparr>status_checks := []\<rparr>)))
       = PASSING_STATUS"
proof -
  have f: "all_failing_checks example_service =
             [example_check\<lparr>importance := ''WARNING'', calculated_status := ''failing''\<rparr>,
              example_check\<lparr>importance := ''ERROR'', calculated_status := ''failing''\<rparr>]"
    by (simp add: example_service_def example_check_def all_failing_checks_def
          active_status_checks_def CALCULATED_PASSING_STATUS_def)
  have e: "all_failing_checks (example_service\<lparr>status_checks := []\<rparr>) = []"
    by (simp add: all_failing_checks_def active_status_checks_def)
  have m: "most_severe (all_failing_checks example_service) = ERROR_STATUS"
    unfolding f by (simp add: most_severe_def status_defs)
  have r1: "overall_status (svc (update_status 5 6 7 8 [] [] example_service)) = ERROR_STATUS"
    using update_status_most_severe [of 5 6 7 8 "[]" "[]" example_service] m by simp
  have r2: "overall_status
              (svc (update_status 5 6 7 8 [] [] (example_service\<lparr>status_checks := []\<rparr>)))
            = PASSING_STATUS"
    using update_status_most_severe [of 5 6 7 8 "[]" "[]" "example_service\<lparr>status_checks := []\<rparr>"]
      e by (simp add: most_severe_def)
  have i: "list_all (\<lambda>c. importance c \<in> {WARNING_STATUS, ERROR_STATUS, CRITICAL_STATUS})
             (all_failing_checks example_service)"
    unfolding f by (simp add: status_defs)
  show ?thesis
    using r1 r2 e i by (simp add: f)
qed

section \<open>The alert throttle\<close>

lemma alert_send_ok:
  "snapshot s = Some sn \<Longrightarrow> get_duty_officers None td sh pr = Inr officers \<Longrightarrow>
   alert_send td sh pr s =
     \<lparr>svc = s\<lparr>snapshot := Some (sn\<lparr>did_send_alert := True\<rparr>)\<rparr>,
      effects = [ServiceSaved s, SnapshotSaved (sn\<lparr>did_send_alert := True\<rparr>),
                 AlertSent (s\<lparr>snapshot := Some (sn\<lparr>did_send_alert := True\<rparr>)\<rparr>) officers],
      raised = None\<rparr>"
  by (simp add: alert_send_def Let_def)

lemma alert_send_effects: "effects (alert_send td sh pr s) \<noteq> []"
  by (simp add: alert_send_def Let_def split: option.splits sum.splits)

lemma alert_send_last:
  "last_alert_sent (svc (alert_send td sh pr s)) = last_alert_sent s"
  by (simp add: alert_send_def Let_def split: option.splits sum.splits)

lemma alert_send_not_quiet: "alert_send td sh pr s' \<noteq> \<lparr>svc = s, effects = [], raised = None\<rparr>"
  using alert_send_effects [of td sh pr s'] by (metis outcome.select_convs(2))

lemma sent_within_iff:
  "sent_within l tc m \<longleftrightarrow> (\<exists>T. l = Some T \<and> tc - T < minutes m)"
  by (cases l) (auto simp: sent_within_def)

text \<open>
  C3. For a service with alerting enabled and a status that is not \<open>PASSING\<close>,
  \<^verbatim>\<open>alert\<close> is suppressed (the object is returned as it was, nothing is saved
  and nothing is dispatched) exactly when \<^verbatim>\<open>last_alert_sent\<close> holds a time
  \<open>T\<close> with \<open>now - T\<close> below the cooldown of the status: 120 minutes for
  \<open>WARNING\<close>, 10 minutes for \<open>ERROR\<close> and \<open>CRITICAL\<close>. Otherwise
  \<^verbatim>\<open>last_alert_sent\<close> is set to the clock reading \<open>ts\<close>, and, when the object
  has its snapshot and the duty roster answers, the service is saved, the snapshot
  is marked and saved, and \<^verbatim>\<open>send_alert\<close> is called. With
  \<^verbatim>\<open>last_alert_sent = T\<close> and status \<open>ERROR\<close>, the step at \<open>T + 9\<close> minutes is
  suppressed and the step at \<open>T + 11\<close> minutes sets \<^verbatim>\<open>last_alert_sent\<close>.
\<close>

theorem alert_throttle:
  "alerts_enabled s \<Longrightarrow>
     (overall_status s = WARNING_STATUS \<longrightarrow>
        (alert tc ts td sh pr s = \<lparr>svc = s, effects = [], raised = None\<rparr>)
          = (\<exists>T. last_alert_sent s = Some T \<and> tc - T < minutes 120))
   \<and> (overall_status s = ERROR_STATUS \<or> overall_status s = CRITICAL_STATUS \<longrightarrow>
        (alert tc ts td sh pr s = \<lparr>svc = s, effects = [], raised = None\<rparr>)
          = (\<exists>T. last_alert_sent s = Some T \<and> tc - T < minutes 10))
   \<and> (overall_status s \<noteq> PASSING_STATUS
        \<and> alert tc ts td sh pr s \<noteq> \<lparr>svc = s, effects = [], raised = None\<rparr> \<longrightarrow>
        last_alert_sent (svc (alert tc ts td sh pr s)) = Some ts
        \<and> (snapshot s = Some sn \<and> get_duty_officers None td sh pr = Inr officers \<longrightarrow>
             alert tc ts td sh pr s =
               \<lparr>svc = s\<lparr>last_alert_sent := Some ts,
                         snapshot := Some (sn\<lparr>did_send_alert := True\<rparr>)\<rparr>,
                effects =
                  [ServiceSaved (s\<lparr>last_alert_sent := Some ts\<rparr>),
                   SnapshotSaved (sn\<lparr>did_send_alert := True\<rparr>),
                   AlertSent (s\<lparr>last_alert_sent := Some ts,
                                snapshot := Some (sn\<lparr>did_send_alert := True\<rparr>)\<rparr>) officers],
                raised = None\<rparr>))
   \<and> (last_alert_sent s = Some T \<and> overall_status s = ERROR_STATUS \<longrightarrow>
        alert (T + minutes 9) ts td sh pr s = \<lparr>svc = s, effects = [], raised = None\<rparr>
        \<and> last_alert_sent (svc (alert (T + minutes 11) ts td sh pr s)) = Some ts)"
proof -
  assume en: "alerts_enabled s"
  have w: "overall_status s = WARNING_STATUS \<longrightarrow>
        (alert tc ts td sh pr s = \<lparr>svc = s, effects = [], raised = None\<rparr>)
          = (\<exists>T. last_alert_sent s = Some T \<and> tc - T < minutes 120)"
    using en by (simp add: alert_def status_defs alert_send_not_quiet sent_within_iff)
  have e: "overall_status s = ERROR_STATUS \<or> overall_status s = CRITICAL_STATUS \<longrightarrow>
        (alert tc ts td sh pr s = \<lparr>svc = s, effects = [], raised = None\<rparr>)
          = (\<exists>T. last_alert_sent s = Some T \<and> tc - T < minutes 10)"
    using en by (auto simp: alert_def status_defs alert_send_not_quiet sent_within_iff)
  have n: "overall_status s \<noteq> PASSING_STATUS
        \<and> alert tc ts td sh pr s \<noteq> \<lparr>svc = s, effects = [], raised = None\<rparr> \<longrightarrow>
        alert tc ts td sh pr s = alert_send td sh pr (s\<lparr>last_alert_sent := Some ts\<rparr>)"
    using en by (auto simp: alert_def split: if_splits)
  have p: "last_alert_sent s = Some T \<and> overall_status s = ERROR_STATUS \<longrightarrow>
        alert (T + minutes 9) ts td sh pr s = \<lparr>svc = s, effects = [], raised = None\<rparr>
        \<and> last_alert_sent (svc (alert (T + minutes 11) ts td sh pr s)) = Some ts"
    using en
    by (auto simp: alert_def status_defs sent_within_def minutes_def alert_send_last)
  have c3: "overall_status s \<noteq> PASSING_STATUS
        \<and> alert tc ts td sh pr s \<noteq> \<lparr>svc = s, effects = [], raised = None\<rparr> \<longrightarrow>
        last_alert_sent (svc (alert tc ts td sh pr s)) = Some ts
        \<and> (snapshot s = Some sn \<and> get_duty_officers None td sh pr = Inr officers \<longrightarrow>
             alert tc ts td sh pr s =
               \<lparr>svc = s\<lparr>last_alert_sent := Some ts,
                         snapshot := Some (sn\<lparr>did_send_alert := True\<rparr>)\<rparr>,
                effects =
                  [ServiceSaved (s\<lparr>last_alert_sent := Some ts\<rparr>),
                   SnapshotSaved (sn\<lparr>did_send_alert := True\<rparr>),
                   AlertSent (s\<lparr>last_alert_sent := Some ts,
                                snapshot := Some (sn\<lparr>did_send_alert := True\<rparr>)\<rparr>) officers],
                raised = None\<rparr>)"
  proof (intro impI conjI)
    assume "overall_status s \<noteq> PASSING_STATUS
        \<and> alert tc ts td sh pr s \<noteq> \<lparr>svc = s, effects = [], raised = None\<rparr>"
    then have eq: "alert tc ts td sh pr s
                     = alert_send td sh pr (s\<lparr>last_alert_sent := Some ts\<rparr>)"
      using n by blast
    show "last_alert_sent (svc (alert tc ts td sh pr s)) = Some ts"
      by (simp add: eq alert_send_last)
    assume "snapshot s = Some sn \<and> get_duty_officers None td sh pr = Inr officers"
    then show "alert tc ts td sh pr s =
               \<lparr>svc = s\<lparr>last_alert_sent := Some ts,
                         snapshot := Some (sn\<lparr>did_send_alert := True\<rparr>)\<rparr>,
                effects =
                  [ServiceSaved (s\<lparr>last_alert_sent := Some ts\<rparr>),
                   SnapshotSaved (sn\<lparr>did_send_alert := True\<rparr>),
                   AlertSent (s\<lparr>last_alert_sent := Some ts,
                                snapshot := Some (sn\<lparr>did_send_alert := True\<rparr>)\<rparr>) officers],
                raised = None\<rparr>"
      unfolding eq
      using alert_send_ok [of "s\<lparr>last_alert_sent := Some ts\<rparr>" sn td sh pr officers]
      by simp
  qed
  show ?thesis
    by (rule conjI [OF w conjI [OF e conjI [OF c3 p]]])
qed


theorem alert_throttle_witness:
  "alerts_enabled erroring_service
   \<and> overall_status erroring_service = ERROR_STATUS
   \<and> last_alert_sent erroring_service = Some 1000
   \<and> alert (1000 + minutes 9) 7 8 [] [fallback_profile] erroring_service
       = \<lparr>svc = erroring_service, effects = [], raised = None\<rparr>
   \<and> last_alert_sent
        (svc (alert (1000 + minutes 11) 7 8 [] [fallback_profile] erroring_service)) = Some 7
   \<and> dispatched
        (effects (alert (1000 + minutes 11) 7 8 [] [fallback_profile] erroring_service))
   \<and> overall_status (erroring_service\<lparr>overall_status := ''WARNING''\<rparr>) = WARNING_STATUS
   \<and> alert (1000 + minutes 119) 7 8 [] [fallback_profile]
        (erroring_service\<lparr>overall_status := ''WARNING''\<rparr>)
       = \<lparr>svc = erroring_service\<lparr>overall_status := ''WARNING''\<rparr>, effects = [], raised = None\<rparr>"
proof -
  have h: "alerts_enabled erroring_service"
    "overall_status erroring_service = ERROR_STATUS"
    "last_alert_sent erroring_service = Some 1000"
    "snapshot erroring_service = Some example_snapshot"
    by (simp_all add: erroring_service_def example_service_def status_defs)
  have g: "get_duty_officers None 8 [] [fallback_profile] = Inr [OfficerProfile fallback_profile]"
    by (simp add: get_duty_officers_def fallback_profile_def)
  have q: "(1000::int) + minutes 11 - 1000 < minutes 10 \<longleftrightarrow> False"
    "(1000::int) + minutes 119 - 1000 < minutes 120"
    by (simp_all add: minutes_def)
  note t = alert_throttle [where s = erroring_service and T = 1000 and ts = 7 and td = 8
      and sh = "[]" and pr = "[fallback_profile]" and sn = example_snapshot
      and officers = "[OfficerProfile fallback_profile]"
      and tc = "1000 + minutes 11", OF h(1)]
  have a9: "alert (1000 + minutes 9) 7 8 [] [fallback_profile] erroring_service
       = \<lparr>svc = erroring_service, effects = [], raised = None\<rparr>"
    using t h by blast
  have nq: "alert (1000 + minutes 11) 7 8 [] [fallback_profile] erroring_service
       \<noteq> \<lparr>svc = erroring_service, effects = [], raised = None\<rparr>"
    using t h q(1) by simp
  have a11: "last_alert_sent
        (svc (alert (1000 + minutes 11) 7 8 [] [fallback_profile] erroring_service)) = Some 7"
    using t h by blast
  have ne: "overall_status erroring_service \<noteq> PASSING_STATUS"
    using h(2) by (simp add: status_defs)
  have d11: "dispatched
        (effects (alert (1000 + minutes 11) 7 8 [] [fallback_profile] erroring_service))"
    using t [THEN conjunct2, THEN conjunct2, THEN conjunct1] ne nq h(4) g
    by (simp add: dispatched_def)
  have w: "alerts_enabled (erroring_service\<lparr>overall_status := ''WARNING''\<rparr>)"
    "overall_status (erroring_service\<lparr>overall_status := ''WARNING''\<rparr>) = WARNING_STATUS"
    "last_alert_sent (erroring_service\<lparr>overall_status := ''WARNING''\<rparr>) = Some 1000"
    by (simp_all add: erroring_service_def example_service_def status_defs)
  have aw: "alert (1000 + minutes 119) 7 8 [] [fallback_profile]
        (erroring_service\<lparr>overall_status := ''WARNING''\<rparr>)
       = \<lparr>svc = erroring_service\<lparr>overall_status := ''WARNING''\<rparr>, effects = [], raised = None\<rparr>"
    using alert_throttle [where s = "erroring_service\<lparr>overall_status := ''WARNING''\<rparr>"
        and tc = "1000 + minutes 119" and ts = 7 and td = 8
        and sh = "[]" and pr = "[fallback_profile]", OF w(1)] w(2) w(3) q(2)
    by simp
  show ?thesis
    using h(1) h(2) h(3) a9 a11 d11 w(2) aw by simp
qed

text \<open>
  C1, as the code has it. When the status of a service has gone from a value other
  than \<open>PASSING\<close> to \<open>PASSING\<close> and alerting is enabled, \<^verbatim>\<open>alert\<close> sets
  \<^verbatim>\<open>last_alert_sent\<close> to \<open>None\<close> and is never throttled: it goes on to save
  the service, to mark the snapshot of the cycle as having sent an alert, and to
  call \<^verbatim>\<open>send_alert\<close> (when the object has its snapshot and the duty roster
  answers). With alerting disabled it changes nothing, \<^verbatim>\<open>last_alert_sent\<close>
  included.
\<close>

theorem alert_recovery:
  "overall_status s = PASSING_STATUS \<and> old_overall_status s \<noteq> PASSING_STATUS \<Longrightarrow>
     (alerts_enabled s \<longrightarrow>
        last_alert_sent (svc (alert tc ts td sh pr s)) = None
        \<and> alert tc ts td sh pr s = alert_send td sh pr (s\<lparr>last_alert_sent := None\<rparr>)
        \<and> (snapshot s = Some sn \<and> get_duty_officers None td sh pr = Inr officers \<longrightarrow>
             alert tc ts td sh pr s =
               \<lparr>svc = s\<lparr>last_alert_sent := None,
                         snapshot := Some (sn\<lparr>did_send_alert := True\<rparr>)\<rparr>,
                effects =
                  [ServiceSaved (s\<lparr>last_alert_sent := None\<rparr>),
                   SnapshotSaved (sn\<lparr>did_send_alert := True\<rparr>),
                   AlertSent (s\<lparr>last_alert_sent := None,
                                snapshot := Some (sn\<lparr>did_send_alert := True\<rparr>)\<rparr>) officers],
                raised = None\<rparr>))
   \<and> (\<not> alerts_enabled s \<longrightarrow>
        alert tc ts td sh pr s = \<lparr>svc = s, effects = [], raised = None\<rparr>)"
proof -
  assume a: "overall_status s = PASSING_STATUS \<and> old_overall_status s \<noteq> PASSING_STATUS"
  have d: "\<not> alerts_enabled s \<longrightarrow>
        alert tc ts td sh pr s = \<lparr>svc = s, effects = [], raised = None\<rparr>"
    by (simp add: alert_def)
  have e: "alerts_enabled s \<longrightarrow>
        alert tc ts td sh pr s = alert_send td sh pr (s\<lparr>last_alert_sent := None\<rparr>)"
    using a by (simp add: alert_def)
  have f: "alerts_enabled s \<longrightarrow>
        snapshot s = Some sn \<and> get_duty_officers None td sh pr = Inr officers \<longrightarrow>
             alert tc ts td sh pr s =
               \<lparr>svc = s\<lparr>last_alert_sent := None,
                         snapshot := Some (sn\<lparr>did_send_alert := True\<rparr>)\<rparr>,
                effects =
                  [ServiceSaved (s\<lparr>last_alert_sent := None\<rparr>),
                   SnapshotSaved (sn\<lparr>did_send_alert := True\<rparr>),
                   AlertSent (s\<lparr>last_alert_sent := None,
                                snapshot := Some (sn\<lparr>did_send_alert := True\<rparr>)\<rparr>) officers],
                raised = None\<rparr>"
    using e alert_send_ok [of "s\<lparr>last_alert_sent := None\<rparr>" sn td sh pr officers]
    by simp
  have l: "alerts_enabled s \<longrightarrow> last_alert_sent (svc (alert tc ts td sh pr s)) = None"
    using e by (simp add: alert_send_last)
  show ?thesis
    using d e f l by blast
qed

text \<open>
  The claim that a recovery never triggers a send fails: on a service that went from
  \<open>ERROR\<close> to \<open>PASSING\<close>, \<^verbatim>\<open>alert\<close> calls \<^verbatim>\<open>send_alert\<close> and marks the
  snapshot.
\<close>

theorem alert_recovery_sends:
  "overall_status recovered_service = PASSING_STATUS
   \<and> old_overall_status recovered_service \<noteq> PASSING_STATUS
   \<and> dispatched (effects (alert 2000 2001 2002 [] [fallback_profile] recovered_service))
   \<and> map_option did_send_alert
        (snapshot (svc (alert 2000 2001 2002 [] [fallback_profile] recovered_service)))
       = Some True"
  by (simp add: recovered_service_def example_service_def alert_def alert_send_def
        get_duty_officers_def fallback_profile_def dispatched_def status_defs Let_def)

theorem alert_recovery_witness:
  "overall_status recovered_service = PASSING_STATUS
   \<and> old_overall_status recovered_service \<noteq> PASSING_STATUS
   \<and> alerts_enabled recovered_service
   \<and> last_alert_sent (svc (alert 2000 2001 2002 [] [fallback_profile] recovered_service)) = None
   \<and> \<not> alerts_enabled (recovered_service\<lparr>alerts_enabled := False\<rparr>)
   \<and> alert 2000 2001 2002 [] [fallback_profile] (recovered_service\<lparr>alerts_enabled := False\<rparr>)
       = \<lparr>svc = recovered_service\<lparr>alerts_enabled := False\<rparr>, effects = [], raised = None\<rparr>"
proof -
  have h: "overall_status recovered_service = PASSING_STATUS
             \<and> old_overall_status recovered_service \<noteq> PASSING_STATUS"
    "alerts_enabled recovered_service"
    by (simp_all add: recovered_service_def example_service_def status_defs)
  have h': "overall_status (recovered_service\<lparr>alerts_enabled := False\<rparr>) = PASSING_STATUS
             \<and> old_overall_status (recovered_service\<lparr>alerts_enabled := False\<rparr>) \<noteq> PASSING_STATUS"
    using h(1) by simp
  have r1: "last_alert_sent
              (svc (alert 2000 2001 2002 [] [fallback_profile] recovered_service)) = None"
    using h(2) alert_recovery [where s = recovered_service and tc = 2000 and ts = 2001
        and td = 2002 and sh = "[]" and pr = "[fallback_profile]", OF h(1)]
    by blast
  have d: "\<not> alerts_enabled (recovered_service\<lparr>alerts_enabled := False\<rparr>)"
    by simp
  have r2: "alert 2000 2001 2002 [] [fallback_profile]
              (recovered_service\<lparr>alerts_enabled := False\<rparr>)
            = \<lparr>svc = recovered_service\<lparr>alerts_enabled := False\<rparr>, effects = [],
               raised = None\<rparr>"
    using d alert_recovery [where s = "recovered_service\<lparr>alerts_enabled := False\<rparr>"
        and tc = 2000 and ts = 2001 and td = 2002 and sh = "[]"
        and pr = "[fallback_profile]", OF h']
    by blast
  show ?thesis
    using h r1 d r2 by blast
qed

section \<open>The build check\<close>

lemma py_format_not_found:
  "py_format ''Job %s not found on Jenkins'' [n] = Inr (''Job '' @ n @ '' not found on Jenkins'')"
  by simp

lemma py_format_disabled:
  "py_format ''Job disabled on Jenkins'' [n] = Inl TypeError"
  by simp

lemma save_result_rows:
  "results_after (save_result fin c r rows) = rows @ [r]"
  by (simp add: save_result_def Let_def split: sum.splits)

lemma StatusCheck_save_ok:
  "debounce c = Some d \<Longrightarrow> \<exists>c'. StatusCheck_save c rows = Inr c'"
  by (simp add: StatusCheck_save_def calculate_debounced_passing_def Let_def)

lemma save_result_no_raise:
  "debounce c = Some d \<Longrightarrow> run_raised (save_result fin c r rows) = None"
  using StatusCheck_save_ok [of "c\<lparr>last_run := Some fin\<rparr>" d "rows @ [r]"]
  by (auto simp: save_result_def Let_def)

lemma save_result_last_run:
  "last_run (check_after (save_result fin c r rows)) = Some fin"
  by (auto simp: save_result_def Let_def StatusCheck_save_def split: sum.splits)

text \<open>
  C5, as the code has it. When the build server raises \<^verbatim>\<open>HTTPError\<close> (job not
  found), the run writes one result, failed, whose error names the job, and does
  nothing more; when it raises anything else, the run writes one result marked
  succeeded whose error is the note \<^verbatim>\<open>Error fetching from Jenkins\<close>. For a
  check whose debounce is a number \<open>d \<ge> 0\<close>, \<^verbatim>\<open>run\<close> raises in neither
  case. The results are written whatever the debounce is.
\<close>

theorem JenkinsStatusCheck_run_resilience:
  "results_after (JenkinsStatusCheck_run st fin RaisesHTTPError c rows)
     = rows @ [(new_result st)\<lparr>error := Some (''Job '' @ name c @ '' not found on Jenkins''),
                 succeeded := False, time_complete := Some fin\<rparr>]
   \<and> results_after (JenkinsStatusCheck_run st fin RaisesOther c rows)
     = rows @ [(new_result st)\<lparr>error := Some ''Error fetching from Jenkins'',
                 succeeded := True, time_complete := Some fin\<rparr>]
   \<and> (debounce c = Some d \<and> 0 \<le> d \<longrightarrow>
        run_raised (JenkinsStatusCheck_run st fin RaisesHTTPError c rows) = None
        \<and> run_raised (JenkinsStatusCheck_run st fin RaisesOther c rows) = None)"
  by (simp add: JenkinsStatusCheck_run_def Let_def py_format_not_found save_result_rows
        save_result_no_raise del: py_format.simps)

theorem JenkinsStatusCheck_run_resilience_witness:
  "debounce example_check = Some 0 \<and> (0::int) \<le> 0
   \<and> run_raised (JenkinsStatusCheck_run 100 200 RaisesHTTPError example_check [failed_result 1])
       = None
   \<and> run_raised (JenkinsStatusCheck_run 100 200 RaisesOther example_check [failed_result 1])
       = None
   \<and> map succeeded
        (results_after
          (JenkinsStatusCheck_run 100 200 RaisesHTTPError example_check [failed_result 1]))
       = [False, False]
   \<and> map error
        (results_after
          (JenkinsStatusCheck_run 100 200 RaisesHTTPError example_check [failed_result 1]))
       = [None, Some ''Job web not found on Jenkins'']
   \<and> map succeeded
        (results_after
          (JenkinsStatusCheck_run 100 200 RaisesOther example_check [failed_result 1]))
       = [False, True]"
proof -
  have d: "debounce example_check = Some 0 \<and> (0::int) \<le> 0"
    by (simp add: example_check_def)
  have n: "name example_check = ''web''"
    by (simp add: example_check_def)
  note t = JenkinsStatusCheck_run_resilience
    [where st = 100 and fin = 200 and c = example_check and rows = "[failed_result 1]"
       and d = 0]
  have r: "run_raised
             (JenkinsStatusCheck_run 100 200 RaisesHTTPError example_check [failed_result 1])
           = None
         \<and> run_raised
             (JenkinsStatusCheck_run 100 200 RaisesOther example_check [failed_result 1])
           = None"
    using t d by blast
  have e1: "map succeeded
        (results_after
          (JenkinsStatusCheck_run 100 200 RaisesHTTPError example_check [failed_result 1]))
       = [False, False]"
    unfolding t [THEN conjunct1] by (simp add: failed_result_def new_result_def)
  have e2: "map error
        (results_after
          (JenkinsStatusCheck_run 100 200 RaisesHTTPError example_check [failed_result 1]))
       = [None, Some ''Job web not found on Jenkins'']"
    unfolding t [THEN conjunct1] by (simp add: failed_result_def new_result_def n)
  have e3: "map succeeded
        (results_after
          (JenkinsStatusCheck_run 100 200 RaisesOther example_check [failed_result 1]))
       = [False, True]"
    unfolding t [THEN conjunct2, THEN conjunct1]
    by (simp add: failed_result_def new_result_def)
  show ?thesis
    using d r e1 e2 e3 by blast
qed

text \<open>
  The claim that \<^verbatim>\<open>run\<close> raises in neither case, for every build check, fails
  on a check whose debounce is null (the column is nullable): both branches write
  their result and end in \<^verbatim>\<open>StatusCheck.save\<close>, where
  \<^verbatim>\<open>debounce + 1\<close> raises \<^verbatim>\<open>TypeError\<close> on the history that the new result
  has made non-empty.
\<close>

theorem JenkinsStatusCheck_run_null_debounce:
  "debounce (example_check\<lparr>debounce := None\<rparr>) = None
   \<and> run_raised
        (JenkinsStatusCheck_run 100 200 RaisesHTTPError (example_check\<lparr>debounce := None\<rparr>) [])
       = Some TypeError
   \<and> run_raised
        (JenkinsStatusCheck_run 100 200 RaisesOther (example_check\<lparr>debounce := None\<rparr>) [])
       = Some TypeError
   \<and> map succeeded
        (results_after
          (JenkinsStatusCheck_run 100 200 RaisesHTTPError
             (example_check\<lparr>debounce := None\<rparr>) []))
       = [False]
   \<and> map succeeded
        (results_after
          (JenkinsStatusCheck_run 100 200 RaisesOther
             (example_check\<lparr>debounce := None\<rparr>) []))
       = [True]"
  by (simp add: JenkinsStatusCheck_run_def save_result_def StatusCheck_save_def
        calculate_debounced_passing_def recent_results_def order_by_time_complete_desc_def
        new_result_def example_check_def Let_def py_format_not_found del: py_format.simps)

text \<open>
  C6, as the code has it. For a job that the build server reports as not active,
  the run evaluates \<^verbatim>\<open>'Job disabled on Jenkins' % self.name\<close>, a template
  without a conversion given one argument, which raises \<^verbatim>\<open>TypeError\<close> outside
  the \<^verbatim>\<open>try\<close>: \<^verbatim>\<open>run\<close> raises and no result is written.
\<close>

theorem JenkinsStatusCheck_run_disabled:
  "JenkinsStatusCheck_run st fin (Returns (status\<lparr>job_active := False\<rparr>)) c rows
     = \<lparr>check_after = c, results_after = rows, run_raised = Some TypeError\<rparr>
   \<and> JenkinsStatusCheck_run 100 200
       (Returns \<lparr>job_active = False, job_succeeded = True, blocked_build_time = None\<rparr>)
       example_check []
     = \<lparr>check_after = example_check, results_after = [], run_raised = Some TypeError\<rparr>"
  by (simp add: JenkinsStatusCheck_run_def Let_def py_format_disabled run_raises_def
        del: py_format.simps)

section \<open>The metric check\<close>

lemma fmt_f1_5: "fmt_f1 5 = ''5.0''"
  by (simp add: fmt_f1_def round_half_even_def str_nat.simps digit_char_def Let_def)

lemma fmt_f1_4: "fmt_f1 4 = ''4.0''"
  by (simp add: fmt_f1_def round_half_even_def str_nat.simps digit_char_def Let_def)

lemma py_float_4: "py_float ''4.0'' = Inr 4"
  by (simp add: py_float_def py_strip_def is_space_def digit_val_def Let_def)

lemma hosts_1_1: "py_format '' | %s/%s hosts'' [str_int 1, str_opt_int (Some 1)] = Inr '' | 1/1 hosts''"
  by (simp add: str_int_def str_opt_int_def str_nat.simps digit_char_def)

text \<open>
  C7, as the code has it. A metric check with operator \<^verbatim>\<open>>\<close>, threshold
  \<^verbatim>\<open>4.0\<close> and \<^verbatim>\<open>expected_num_hosts = 1\<close>, run on an answer without a query
  error that has one series with data and the maximum 5.0, writes one failed result
  whose error text is \<^verbatim>\<open>5.0 > 4.0 | 1/1 hosts\<close>: the host suffix is added
  whenever \<^verbatim>\<open>expected_num_hosts\<close> is positive. The text is \<^verbatim>\<open>5.0 > 4.0\<close>
  when \<^verbatim>\<open>expected_num_hosts\<close> is 0.
\<close>

theorem GraphiteStatusCheck_run_example:
  "results_after
     (GraphiteStatusCheck_run st fin
        (s\<lparr>series_error := False, num_series_with_data := 1, series_max := 5\<rparr>)
        (c\<lparr>check_type := Some ''>'', check_value := Some ''4.0'',
           expected_num_hosts := Some 1\<rparr>)
        rows)
   = rows @
     [\<lparr>time = st, time_complete = Some fin, raw_data = Some (RawText (raw s)),
       succeeded = False, error = Some ''5.0 > 4.0 | 1/1 hosts'',
       average_value = Some (series_average_value s), actual_hosts = Some 1,
       failure_value = Some 5\<rparr>]
   \<and> results_after
     (GraphiteStatusCheck_run st fin
        (s\<lparr>series_error := False, num_series_with_data := 1, series_max := 5\<rparr>)
        (c\<lparr>check_type := Some ''>'', check_value := Some ''4.0'',
           expected_num_hosts := Some 0\<rparr>)
        rows)
   = rows @
     [\<lparr>time = st, time_complete = Some fin, raw_data = Some (RawText (raw s)),
       succeeded = False, error = Some ''5.0 > 4.0'',
       average_value = Some (series_average_value s), actual_hosts = Some 1,
       failure_value = Some 5\<rparr>]"
  by (simp add: GraphiteStatusCheck_run_def compare_series_def float_value_def py_float_4
        format_error_message_def opt_gt_def lt_opt_def hosts_1_1 fmt_f1_5 fmt_f1_4 str_opt_def
        new_result_def save_result_rows Let_def del: py_format.simps)

text \<open>
  The text of the claim, \<^verbatim>\<open>5.0 > 4.0\<close>, is not the error of the result written
  on the claim's input.
\<close>

theorem GraphiteStatusCheck_run_example_text:
  "map error (results_after (GraphiteStatusCheck_run 100 200 one_series metric_check []))
     \<noteq> [Some ''5.0 > 4.0'']
   \<and> map succeeded (results_after (GraphiteStatusCheck_run 100 200 one_series metric_check []))
     = [False]"
  by (simp add: one_series_def metric_check_def example_check_def
        GraphiteStatusCheck_run_def compare_series_def float_value_def py_float_4
        format_error_message_def opt_gt_def lt_opt_def hosts_1_1 fmt_f1_5 fmt_f1_4 str_opt_def
        new_result_def save_result_rows Let_def del: py_format.simps)

section \<open>The fallback profile\<close>

lemma fold_max_ge: "(a::nat) \<le> fold max xs a"
proof (induction xs arbitrary: a)
  case Nil then show ?case by simp
next
  case (Cons y ys)
  have "a \<le> max y a" by simp
  also have "max y a \<le> fold max ys (max y a)" by (rule Cons.IH)
  finally show ?case by simp
qed

lemma fold_max_mem: "(x::nat) \<in> set xs \<Longrightarrow> x \<le> fold max xs a"
proof (induction xs arbitrary: a)
  case Nil then show ?case by simp
next
  case (Cons y ys)
  show ?case
  proof (cases "x = y")
    case True
    have "x \<le> max y a" using True by simp
    also have "max y a \<le> fold max ys (max y a)" by (rule fold_max_ge)
    finally show ?thesis by simp
  next
    case False
    then have "x \<in> set ys" using Cons.prems by simp
    then have "x \<le> fold max ys (max y a)" by (rule Cons.IH)
    then show ?thesis by simp
  qed
qed

lemma next_profile_id_fresh: "Some (next_profile_id table) \<notin> set (map profile_id table)"
proof
  assume "Some (next_profile_id table) \<in> set (map profile_id table)"
  then obtain r where r: "r \<in> set table" "profile_id r = Some (next_profile_id table)"
    by auto
  then have "next_profile_id table
      \<in> set (map (\<lambda>r. case profile_id r of None \<Rightarrow> 0 | Some i \<Rightarrow> i) table)"
    by force
  then have "next_profile_id table
      \<le> fold max (map (\<lambda>r. case profile_id r of None \<Rightarrow> 0 | Some i \<Rightarrow> i) table) 0"
    by (rule fold_max_mem)
  then show False by (simp add: next_profile_id_def)
qed

lemma replace_keys:
  "profile_id p = k \<Longrightarrow>
   map profile_id (map (\<lambda>r. if profile_id r = k then p else r) table) = map profile_id table"
  by (induction table) auto

lemma clear_keys:
  "map profile_id
     (map (\<lambda>r. if profile_id r \<noteq> k then r\<lparr>fallback_alert_user := False\<rparr> else r) table)
     = map profile_id table"
  by (induction table) auto

lemma primary_keys_cong:
  "map profile_id t' = map profile_id t \<Longrightarrow> primary_keys t \<Longrightarrow> primary_keys t'"
  unfolding primary_keys_def by simp

lemma Model_save_keys:
  assumes k: "primary_keys table"
  shows "primary_keys (snd (Model_save p table))"
proof (cases "profile_id p")
  case None
  have "primary_keys (table @ [p\<lparr>profile_id := Some (next_profile_id table)\<rparr>])"
    using k next_profile_id_fresh [of table] by (auto simp: primary_keys_def)
  then show ?thesis
    using None by (simp add: Model_save_def Let_def)
next
  case (Some i)
  show ?thesis
  proof (cases "list_ex (\<lambda>r. profile_id r = Some i) table")
    case True
    have "primary_keys (map (\<lambda>r. if profile_id r = Some i then p else r) table)"
      using replace_keys [OF Some, of table] k by (rule primary_keys_cong)
    then show ?thesis
      using Some True by (simp add: Model_save_def)
  next
    case False
    then have "Some i \<notin> set (map profile_id table)"
      by (auto simp: list_ex_iff)
    then have "primary_keys (table @ [p])"
      using k Some by (auto simp: primary_keys_def)
    then show ?thesis
      using Some False by (simp add: Model_save_def)
  qed
qed

lemma UserProfile_save_keys:
  assumes k: "primary_keys table"
  shows "primary_keys (snd (UserProfile_save p table))"
proof -
  define p1 where "p1 = (if mobile_number p \<noteq> [] \<and> hd (mobile_number p) = CHR ''+''
             then p\<lparr>mobile_number := tl (mobile_number p)\<rparr> else p)"
  define t1 where "t1 = (if fallback_alert_user p1
             then map (\<lambda>r. if profile_id r \<noteq> profile_id p1
                            then r\<lparr>fallback_alert_user := False\<rparr> else r) table
             else table)"
  have "map profile_id t1 = map profile_id table"
    unfolding t1_def using clear_keys [of "profile_id p1" table] by simp
  then have "primary_keys t1"
    using k by (rule primary_keys_cong)
  then have "primary_keys (snd (Model_save p1 t1))"
    by (rule Model_save_keys)
  moreover have "UserProfile_save p table = Model_save p1 t1"
    unfolding UserProfile_save_def Let_def p1_def t1_def by (rule refl)
  ultimately show ?thesis
    by simp
qed

lemma replace_unflagged:
  "\<not> fallback_alert_user p \<Longrightarrow>
   length (filter fallback_alert_user (map (\<lambda>r. if profile_id r = k then p else r) table))
     \<le> length (filter fallback_alert_user table)"
  by (induction table) auto

lemma replace_flagged:
  "fallback_alert_user p \<Longrightarrow> distinct (map profile_id table) \<Longrightarrow>
   k \<in> set (map profile_id table) \<Longrightarrow>
   \<forall>r \<in> set table. profile_id r \<noteq> k \<longrightarrow> \<not> fallback_alert_user r \<Longrightarrow>
   filter fallback_alert_user (map (\<lambda>r. if profile_id r = k then p else r) table) = [p]"
proof (induction table)
  case Nil then show ?case by simp
next
  case (Cons a t)
  show ?case
  proof (cases "profile_id a = k")
    case True
    then have "k \<notin> set (map profile_id t)" using Cons.prems(2) by simp
    then have "\<forall>r \<in> set t. profile_id r \<noteq> k" by (auto simp: image_iff)
    then have "filter fallback_alert_user (map (\<lambda>r. if profile_id r = k then p else r) t) = []"
      using Cons.prems(4) by (auto simp: filter_empty_conv)
    then show ?thesis using True Cons.prems(1) by simp
  next
    case False
    then show ?thesis using Cons by auto
  qed
qed

lemma cleared_others:
  "\<forall>r \<in> set (map (\<lambda>r. if profile_id r \<noteq> k then r\<lparr>fallback_alert_user := False\<rparr> else r) table).
     profile_id r \<noteq> k \<longrightarrow> \<not> fallback_alert_user r"
  by auto

lemma UserProfile_save_flagged:
  assumes k: "primary_keys table" and f: "fallback_alert_user p"
  shows "filter fallback_alert_user (snd (UserProfile_save p table))
           = [fst (UserProfile_save p table)]"
proof -
  define p1 where "p1 = (if mobile_number p \<noteq> [] \<and> hd (mobile_number p) = CHR ''+''
             then p\<lparr>mobile_number := tl (mobile_number p)\<rparr> else p)"
  define t1 where "t1 = map (\<lambda>r. if profile_id r \<noteq> profile_id p1
                            then r\<lparr>fallback_alert_user := False\<rparr> else r) table"
  have f1: "fallback_alert_user p1" using f by (simp add: p1_def)
  have u: "UserProfile_save p table = Model_save p1 t1"
    using f1 by (simp add: UserProfile_save_def Let_def p1_def t1_def)
  have m: "map profile_id t1 = map profile_id table"
    unfolding t1_def by (rule clear_keys)
  have k1: "distinct (map profile_id t1)" "None \<notin> set (map profile_id t1)"
    using k unfolding m primary_keys_def by blast+
  have c: "\<forall>r \<in> set t1. profile_id r \<noteq> profile_id p1 \<longrightarrow> \<not> fallback_alert_user r"
    unfolding t1_def by (rule cleared_others)
  show ?thesis
  proof (cases "profile_id p1")
    case None
    have "\<forall>r \<in> set t1. profile_id r \<noteq> None"
      using k1(2) by force
    then have "\<forall>r \<in> set t1. \<not> fallback_alert_user r"
      using c None by simp
    then have "filter fallback_alert_user t1 = []"
      by (simp add: filter_empty_conv)
    then show ?thesis
      unfolding u using None f1 by (simp add: Model_save_def Let_def)
  next
    case (Some i)
    show ?thesis
    proof (cases "list_ex (\<lambda>r. profile_id r = Some i) t1")
      case True
      then have "Some i \<in> set (map profile_id t1)"
        by (force simp: list_ex_iff)
      moreover have "\<forall>r \<in> set t1. profile_id r \<noteq> Some i \<longrightarrow> \<not> fallback_alert_user r"
        using c Some by simp
      ultimately have "filter fallback_alert_user
                   (map (\<lambda>r. if profile_id r = Some i then p1 else r) t1) = [p1]"
        using replace_flagged [OF f1 k1(1), of "Some i"] by blast
      then show ?thesis
        unfolding u using Some True by (simp add: Model_save_def)
    next
      case False
      then have "\<forall>r \<in> set t1. profile_id r \<noteq> profile_id p1"
        using Some by (auto simp: list_ex_iff)
      then have "\<forall>r \<in> set t1. \<not> fallback_alert_user r"
        using c by blast
      then have "filter fallback_alert_user t1 = []"
        by (simp add: filter_empty_conv)
      then show ?thesis
        unfolding u using Some False f1 by (simp add: Model_save_def)
    qed
  qed
qed

lemma UserProfile_save_unflagged:
  assumes f: "\<not> fallback_alert_user p"
  shows "fallback_count (snd (UserProfile_save p table)) \<le> fallback_count table"
proof -
  define p1 where "p1 = (if mobile_number p \<noteq> [] \<and> hd (mobile_number p) = CHR ''+''
             then p\<lparr>mobile_number := tl (mobile_number p)\<rparr> else p)"
  have f1: "\<not> fallback_alert_user p1" using f by (simp add: p1_def)
  have u: "UserProfile_save p table = Model_save p1 table"
    using f1 by (simp add: UserProfile_save_def Let_def p1_def)
  show ?thesis
  proof (cases "profile_id p1")
    case None
    then show ?thesis
      unfolding u fallback_count_def using f1 by (simp add: Model_save_def Let_def)
  next
    case (Some i)
    then show ?thesis
      unfolding u fallback_count_def
      using f1 replace_unflagged [OF f1, of "Some i" table]
      by (simp add: Model_save_def)
  qed
qed

lemma UserProfile_save_count:
  "primary_keys table \<Longrightarrow> fallback_count table \<le> 1 \<Longrightarrow>
   fallback_count (snd (UserProfile_save p table)) \<le> 1"
  using UserProfile_save_flagged [of table p] UserProfile_save_unflagged [of p table]
  by (cases "fallback_alert_user p") (auto simp: fallback_count_def)

text \<open>
  C9. Starting from a table with at most one fallback profile, every sequence of
  \<^verbatim>\<open>UserProfile.save\<close> leaves at most one: zero or one profile has
  \<^verbatim>\<open>fallback_alert_user\<close> set. Saving a profile with the flag set clears the
  flag on every other profile: afterwards the saved profile is the only one flagged.
\<close>

theorem fallback_unique:
  "primary_keys table \<and> fallback_count table \<le> 1 \<Longrightarrow>
     primary_keys (save_all ps table) \<and> fallback_count (save_all ps table) \<le> 1
   \<and> (fallback_alert_user p \<longrightarrow>
        filter fallback_alert_user (snd (UserProfile_save p table))
          = [fst (UserProfile_save p table)]
        \<and> fallback_count (snd (UserProfile_save p table)) = 1)"
proof -
  assume a: "primary_keys table \<and> fallback_count table \<le> 1"
  have s: "primary_keys t \<and> fallback_count t \<le> 1 \<Longrightarrow>
           primary_keys (save_all ps t) \<and> fallback_count (save_all ps t) \<le> 1" for t
  proof (induction ps arbitrary: t)
    case Nil then show ?case by simp
  next
    case (Cons q qs)
    have "primary_keys (snd (UserProfile_save q t))
          \<and> fallback_count (snd (UserProfile_save q t)) \<le> 1"
      using Cons.prems UserProfile_save_keys UserProfile_save_count by blast
    then show ?case using Cons.IH by simp
  qed
  have f: "fallback_alert_user p \<longrightarrow>
        filter fallback_alert_user (snd (UserProfile_save p table))
          = [fst (UserProfile_save p table)]
        \<and> fallback_count (snd (UserProfile_save p table)) = 1"
    using a UserProfile_save_flagged [of table p] by (simp add: fallback_count_def)
  show ?thesis using s [OF a] f by blast
qed

theorem fallback_unique_witness:
  "primary_keys profile_table \<and> fallback_count profile_table \<le> 1
   \<and> fallback_alert_user new_fallback
   \<and> map fallback_alert_user
        (save_all [(profile_table ! 1)\<lparr>fallback_alert_user := True\<rparr>, new_fallback]
           profile_table)
       = [False, False, True]
   \<and> fallback_count
        (save_all [(profile_table ! 1)\<lparr>fallback_alert_user := True\<rparr>, new_fallback]
           profile_table) \<le> 1
   \<and> map fallback_alert_user (snd (UserProfile_save new_fallback profile_table))
       = [False, False, True]
   \<and> fallback_count (snd (UserProfile_save new_fallback profile_table)) = 1"
proof -
  have h: "primary_keys profile_table \<and> fallback_count profile_table \<le> 1"
    by (simp add: primary_keys_def fallback_count_def profile_table_def fallback_profile_def)
  have f: "fallback_alert_user new_fallback"
    by (simp add: new_fallback_def)
  note t = fallback_unique [OF h,
    of "[(profile_table ! 1)\<lparr>fallback_alert_user := True\<rparr>, new_fallback]" new_fallback]
  have c: "fallback_count
        (save_all [(profile_table ! 1)\<lparr>fallback_alert_user := True\<rparr>, new_fallback]
           profile_table) \<le> 1"
    using t by blast
  have c1: "fallback_count (snd (UserProfile_save new_fallback profile_table)) = 1"
    using t f by blast
  have m: "map fallback_alert_user
        (save_all [(profile_table ! 1)\<lparr>fallback_alert_user := True\<rparr>, new_fallback]
           profile_table)
       = [False, False, True]"
    by (simp add: profile_table_def fallback_profile_def new_fallback_def
          UserProfile_save_def Model_save_def next_profile_id_def Let_def)
  have m1: "map fallback_alert_user (snd (UserProfile_save new_fallback profile_table))
       = [False, False, True]"
    by (simp add: profile_table_def fallback_profile_def new_fallback_def
          UserProfile_save_def Model_save_def next_profile_id_def Let_def)
  show ?thesis
    using h f m c m1 c1 by blast
qed

section \<open>The shift synchronizer\<close>

lemma update_event_shift:
  "uid r = event_uid e \<Longrightarrow>
   r\<lparr>start := event_start e, end' := event_end e, user := u, deleted := False\<rparr>
     = event_shift e u"
  by (simp add: event_shift_def)

lemma set_uid_rows: "set (uid_rows u T) = {i. i < length T \<and> uid (T ! i) = u}"
  by (auto simp: uid_rows_def)

lemma uid_rows_cong:
  "length U = length T \<Longrightarrow> \<forall>j < length T. uid (U ! j) = uid (T ! j) \<Longrightarrow>
   uid_rows u U = uid_rows u T"
  unfolding uid_rows_def by (auto intro: filter_cong)

lemma uid_rows_append:
  "uid_rows u (T @ [r]) = uid_rows u T @ (if uid r = u then [length T] else [])"
proof -
  have "filter (\<lambda>i. uid ((T @ [r]) ! i) = u) [0..<length T]
          = filter (\<lambda>i. uid (T ! i) = u) [0..<length T]"
    by (rule filter_cong) (auto simp: nth_append)
  then show ?thesis
    by (simp add: uid_rows_def)
qed

lemma uid_rows_update:
  "i < length T \<Longrightarrow> uid r = uid (T ! i) \<Longrightarrow> uid_rows u (T[i := r]) = uid_rows u T"
  by (rule uid_rows_cong) (auto simp: nth_list_update)

lemma uid_rows_single:
  assumes "uid_rows u T = [i]"
  shows "i < length T" and "uid (T ! i) = u"
    and "\<forall>j < length T. uid (T ! j) = u \<longrightarrow> j = i"
  using set_uid_rows [of u T] assms by auto

lemma uid_rows_none:
  assumes "uid_rows u T = []"
  shows "\<forall>j < length T. uid (T ! j) \<noteq> u"
  using set_uid_rows [of u T] assms by auto

text \<open>One event: it is skipped, it leaves one row for its uid, or it raises.\<close>

lemma upsert_step:
  obtains
    (skip) "lk (event_key e) = None"
      and "upsert_events lk (e # es) T = upsert_events lk es T"
      and "touched lk (e # es) T = touched lk es T"
  | (row) u T1 i where
      "lk (event_key e) = Some u"
      "upsert_events lk (e # es) T = upsert_events lk es T1"
      "touched lk (e # es) T = insert (event_uid e) (touched lk es T1)"
      "length T \<le> length T1"
      "\<forall>j < length T. uid (T1 ! j) = uid (T ! j)"
      "\<forall>j < length T. j \<noteq> i \<longrightarrow> T1 ! j = T ! j"
      "\<forall>j < length T1. length T \<le> j \<longrightarrow> j = i"
      "uid_rows (event_uid e) T1 = [i]"
      "T1 ! i = event_shift e u"
      "\<forall>v. uid_rows v T \<noteq> [] \<longrightarrow> uid_rows v T1 = uid_rows v T"
  | (abort) "upsert_events lk (e # es) T = (T, Some MultipleObjectsReturned)"
      and "touched lk (e # es) T = {}"
proof (cases "lk (event_key e)")
  case None
  then show ?thesis
    using skip by (simp add: event_key_def)
next
  case (Some u)
  show ?thesis
  proof (cases "uid_rows (event_uid e) T")
    case Nil
    let ?T1 = "T @ [event_shift e u]"
    have n: "\<forall>j < length T. uid (T ! j) \<noteq> event_uid e"
      using Nil by (rule uid_rows_none)
    have 1: "upsert_events lk (e # es) T = upsert_events lk es ?T1"
      using Some Nil by (simp add: event_key_def event_shift_def)
    have 2: "touched lk (e # es) T = insert (event_uid e) (touched lk es ?T1)"
      using Some Nil by simp
    have 3: "uid_rows (event_uid e) ?T1 = [length T]"
      using Nil by (simp add: uid_rows_append event_shift_def)
    have 4: "\<forall>v. uid_rows v T \<noteq> [] \<longrightarrow> uid_rows v ?T1 = uid_rows v T"
      using Nil by (auto simp: uid_rows_append event_shift_def)
    show ?thesis
    proof (rule row [of u ?T1 "length T"])
      show "lk (event_key e) = Some u" by (rule Some)
      show "upsert_events lk (e # es) T = upsert_events lk es ?T1" by (rule 1)
      show "touched lk (e # es) T = insert (event_uid e) (touched lk es ?T1)" by (rule 2)
      show "length T \<le> length ?T1" by simp
      show "\<forall>j < length T. uid (?T1 ! j) = uid (T ! j)" by (simp add: nth_append)
      show "\<forall>j < length T. j \<noteq> length T \<longrightarrow> ?T1 ! j = T ! j" by (simp add: nth_append)
      show "\<forall>j < length ?T1. length T \<le> j \<longrightarrow> j = length T" by simp
      show "uid_rows (event_uid e) ?T1 = [length T]" by (rule 3)
      show "?T1 ! length T = event_shift e u" by simp
      show "\<forall>v. uid_rows v T \<noteq> [] \<longrightarrow> uid_rows v ?T1 = uid_rows v T" by (rule 4)
    qed
  next
    case (Cons i rest)
    show ?thesis
    proof (cases rest)
      case Nil
      then have s: "uid_rows (event_uid e) T = [i]" using Cons by simp
      note i = uid_rows_single [OF s]
      let ?T1 = "T[i := event_shift e u]"
      have u: "uid (event_shift e u) = uid (T ! i)"
        using i(2) by (simp add: event_shift_def)
      have 1: "upsert_events lk (e # es) T = upsert_events lk es ?T1"
        using Some s i(2) by (simp add: event_key_def update_event_shift)
      have 2: "touched lk (e # es) T = insert (event_uid e) (touched lk es ?T1)"
        using Some s by simp
      have 3: "uid_rows (event_uid e) ?T1 = [i]"
        using uid_rows_update [OF i(1) u] s by simp
      have 4: "\<forall>v. uid_rows v T \<noteq> [] \<longrightarrow> uid_rows v ?T1 = uid_rows v T"
        using uid_rows_update [OF i(1) u] by simp
      have 5: "\<forall>j < length T. uid (?T1 ! j) = uid (T ! j)"
        using u i(1) by (simp add: nth_list_update)
      show ?thesis
      proof (rule row [of u ?T1 i])
        show "lk (event_key e) = Some u" by (rule Some)
        show "upsert_events lk (e # es) T = upsert_events lk es ?T1" by (rule 1)
        show "touched lk (e # es) T = insert (event_uid e) (touched lk es ?T1)" by (rule 2)
        show "length T \<le> length ?T1" by simp
        show "\<forall>j < length T. uid (?T1 ! j) = uid (T ! j)" by (rule 5)
        show "\<forall>j < length T. j \<noteq> i \<longrightarrow> ?T1 ! j = T ! j" by simp
        show "\<forall>j < length ?T1. length T \<le> j \<longrightarrow> j = i" by simp
        show "uid_rows (event_uid e) ?T1 = [i]" by (rule 3)
        show "?T1 ! i = event_shift e u" using i(1) by simp
        show "\<forall>v. uid_rows v T \<noteq> [] \<longrightarrow> uid_rows v ?T1 = uid_rows v T" by (rule 4)
      qed
    next
      case (Cons j rest')
      then have "uid_rows (event_uid e) T = i # j # rest'"
        using \<open>uid_rows (event_uid e) T = i # rest\<close> by simp
      then show ?thesis
        using Some abort by (simp add: event_key_def)
    qed
  qed
qed

lemma upsert_frame:
  "length T \<le> length (fst (upsert_events lk es T))
   \<and> (\<forall>j < length T. uid (fst (upsert_events lk es T) ! j) = uid (T ! j))
   \<and> (\<forall>j < length T. uid (T ! j) \<notin> touched lk es T \<longrightarrow>
          fst (upsert_events lk es T) ! j = T ! j)
   \<and> (\<forall>j < length (fst (upsert_events lk es T)). length T \<le> j \<longrightarrow>
          uid (fst (upsert_events lk es T) ! j) \<in> touched lk es T)
   \<and> (\<forall>v. uid_rows v T \<noteq> [] \<longrightarrow> uid_rows v (fst (upsert_events lk es T)) = uid_rows v T)"
proof (induction es arbitrary: T)
  case Nil
  then show ?case by simp
next
  case (Cons e es)
  show ?case
  proof (cases rule: upsert_step [of lk e es T])
    case skip
    then show ?thesis using Cons.IH [of T] by simp
  next
    case (row u T1 i)
    let ?T' = "fst (upsert_events lk es T1)"
    note ih = Cons.IH [of T1]
    have ih1: "length T1 \<le> length ?T'"
      and ih2: "\<forall>j < length T1. uid (?T' ! j) = uid (T1 ! j)"
      and ih3: "\<forall>j < length T1. uid (T1 ! j) \<notin> touched lk es T1 \<longrightarrow> ?T' ! j = T1 ! j"
      and ih4: "\<forall>j < length ?T'. length T1 \<le> j \<longrightarrow> uid (?T' ! j) \<in> touched lk es T1"
      and ih5: "\<forall>v. uid_rows v T1 \<noteq> [] \<longrightarrow> uid_rows v ?T' = uid_rows v T1"
      using ih by blast+
    have i1: "i < length T1" and i2: "uid (T1 ! i) = event_uid e"
      using uid_rows_single(1,2) [OF row(8)] by blast+
    have a: "length T \<le> length ?T'"
      using ih1 row(4) by linarith
    have b: "\<forall>j < length T. uid (?T' ! j) = uid (T ! j)"
    proof (intro allI impI)
      fix j assume j: "j < length T"
      then have "j < length T1" using row(4) by linarith
      then have "uid (?T' ! j) = uid (T1 ! j)" using ih2 by blast
      also have "\<dots> = uid (T ! j)" using row(5) j by blast
      finally show "uid (?T' ! j) = uid (T ! j)" .
    qed
    have c: "\<forall>j < length T. uid (T ! j) \<notin> insert (event_uid e) (touched lk es T1) \<longrightarrow>
               ?T' ! j = T ! j"
    proof (intro allI impI)
      fix j assume j: "j < length T"
        and n: "uid (T ! j) \<notin> insert (event_uid e) (touched lk es T1)"
      have j1: "j < length T1" using j row(4) by linarith
      have e1: "uid (T1 ! j) = uid (T ! j)" using row(5) j by blast
      have "j \<noteq> i" using n i2 e1 by auto
      then have "T1 ! j = T ! j" using row(6) j by blast
      moreover have "uid (T1 ! j) \<notin> touched lk es T1" using n e1 by simp
      then have "?T' ! j = T1 ! j" using ih3 j1 by blast
      ultimately show "?T' ! j = T ! j" by simp
    qed
    have d: "\<forall>j < length ?T'. length T \<le> j \<longrightarrow>
               uid (?T' ! j) \<in> insert (event_uid e) (touched lk es T1)"
    proof (intro allI impI)
      fix j assume j: "j < length ?T'" "length T \<le> j"
      show "uid (?T' ! j) \<in> insert (event_uid e) (touched lk es T1)"
      proof (cases "j < length T1")
        case True
        then have "j = i" using row(7) j(2) by blast
        then have "uid (?T' ! j) = event_uid e" using ih2 i1 i2 by simp
        then show ?thesis by simp
      next
        case False
        then have "length T1 \<le> j" by simp
        then have "uid (?T' ! j) \<in> touched lk es T1" using ih4 j(1) by blast
        then show ?thesis by simp
      qed
    qed
    have f: "\<forall>v. uid_rows v T \<noteq> [] \<longrightarrow> uid_rows v ?T' = uid_rows v T"
    proof (intro allI impI)
      fix v assume v: "uid_rows v T \<noteq> []"
      then have "uid_rows v T1 = uid_rows v T" using row(10) by blast
      then show "uid_rows v ?T' = uid_rows v T" using ih5 v by simp
    qed
    show ?thesis
      unfolding row(2) row(3) by (intro conjI) (rule a, rule b, rule c, rule d, rule f)
  next
    case abort
    then show ?thesis by simp
  qed
qed

lemma upsert_absorb:
  "length U = length (fst (upsert_events lk es T)) \<Longrightarrow>
   \<forall>j < length U. uid (U ! j) = uid (fst (upsert_events lk es T) ! j) \<Longrightarrow>
   \<forall>j < length U. uid (U ! j) \<notin> touched lk es T \<longrightarrow>
       U ! j = fst (upsert_events lk es T) ! j \<Longrightarrow>
   upsert_events lk es U = upsert_events lk es T"
proof (induction es arbitrary: T U)
  case Nil
  then have "U = T" by (auto intro: nth_equalityI)
  then show ?case by simp
next
  case (Cons e es)
  show ?case
  proof (cases rule: upsert_step [of lk e es T])
    case skip
    have "upsert_events lk es U = upsert_events lk es T"
      using Cons.prems unfolding skip(2) skip(3) by (rule Cons.IH)
    moreover have "upsert_events lk (e # es) U = upsert_events lk es U"
      using skip(1) by (simp add: event_key_def)
    ultimately show ?thesis using skip(2) by simp
  next
    case (row u T1 i)
    let ?T' = "fst (upsert_events lk es T1)"
    let ?U1 = "U[i := event_shift e u]"
    have p1: "length U = length ?T'"
      and p2: "\<forall>j < length U. uid (U ! j) = uid (?T' ! j)"
      and p3: "\<forall>j < length U. uid (U ! j) \<notin> insert (event_uid e) (touched lk es T1) \<longrightarrow>
                 U ! j = ?T' ! j"
      using Cons.prems unfolding row(2) row(3) by blast+
    note fr = upsert_frame [of T1 lk es]
    have fr3: "\<forall>j < length T1. uid (T1 ! j) \<notin> touched lk es T1 \<longrightarrow> ?T' ! j = T1 ! j"
      and fr5: "\<forall>v. uid_rows v T1 \<noteq> [] \<longrightarrow> uid_rows v ?T' = uid_rows v T1"
      using fr by blast+
    have i1: "i < length T1" and i2: "uid (T1 ! i) = event_uid e"
      using uid_rows_single(1,2) [OF row(8)] by blast+
    have "uid_rows (event_uid e) U = uid_rows (event_uid e) ?T'"
      using p1 p2 by (intro uid_rows_cong) simp_all
    also have "\<dots> = uid_rows (event_uid e) T1"
      using fr5 row(8) by simp
    finally have s: "uid_rows (event_uid e) U = [i]"
      using row(8) by simp
    note iu = uid_rows_single [OF s]
    have step: "upsert_events lk (e # es) U = upsert_events lk es ?U1"
      using row(1) s iu(2) by (simp add: event_key_def update_event_shift)
    have q1: "length ?U1 = length ?T'"
      using p1 by simp
    have ti: "uid (?T' ! i) = event_uid e"
      using p2 iu(1,2) by simp
    have q2: "\<forall>j < length ?U1. uid (?U1 ! j) = uid (?T' ! j)"
    proof (intro allI impI)
      fix j assume "j < length ?U1"
      then have j: "j < length U" by simp
      show "uid (?U1 ! j) = uid (?T' ! j)"
      proof (cases "j = i")
        case True
        then show ?thesis using j ti by (simp add: event_shift_def)
      next
        case False
        then show ?thesis using j p2 by simp
      qed
    qed
    have q3: "\<forall>j < length ?U1. uid (?U1 ! j) \<notin> touched lk es T1 \<longrightarrow> ?U1 ! j = ?T' ! j"
    proof (intro allI impI)
      fix j assume "j < length ?U1" and n: "uid (?U1 ! j) \<notin> touched lk es T1"
      then have j: "j < length U" by simp
      show "?U1 ! j = ?T' ! j"
      proof (cases "j = i")
        case True
        then have "event_uid e \<notin> touched lk es T1"
          using n j by (simp add: event_shift_def)
        then have "?T' ! i = T1 ! i"
          using fr3 i1 i2 by simp
        then show ?thesis
          using True j row(9) by simp
      next
        case False
        then have "uid (U ! j) \<noteq> event_uid e"
          using iu(3) j by blast
        moreover have "uid (U ! j) \<notin> touched lk es T1"
          using n False by simp
        ultimately have "U ! j = ?T' ! j"
          using p3 j by simp
        then show ?thesis using False by simp
      qed
    qed
    have "upsert_events lk es ?U1 = upsert_events lk es T1"
      using q1 q2 q3 by (rule Cons.IH)
    then show ?thesis
      using step row(2) by simp
  next
    case abort
    have "U = T"
    proof (rule nth_equalityI)
      show "length U = length T" using Cons.prems(1) abort(1) by simp
      show "U ! j = T ! j" if "j < length U" for j
        using Cons.prems(3) that abort by simp
    qed
    then show ?thesis by simp
  qed
qed

text \<open>
  C8. Running \<^verbatim>\<open>update_shifts\<close> a second time at the same instant, with the same
  feed and the same users, on the table the first run left, gives the table and the
  outcome of the first run again. So the shifts that are not deleted are the same,
  no row was added by the second run, and every row has the deleted flag it had.
\<close>

theorem update_shifts_idempotent:
  "update_shifts now events users (fst (update_shifts now events users table))
     = update_shifts now events users table
   \<and> filter (\<lambda>s. \<not> deleted s)
        (fst (update_shifts now events users (fst (update_shifts now events users table))))
     = filter (\<lambda>s. \<not> deleted s) (fst (update_shifts now events users table))
   \<and> length (fst (update_shifts now events users (fst (update_shifts now events users table))))
     = length (fst (update_shifts now events users table))
   \<and> map deleted
        (fst (update_shifts now events users (fst (update_shifts now events users table))))
     = map deleted (fst (update_shifts now events users table))"
proof -
  define inv :: "shift \<Rightarrow> shift"
    where "inv = (\<lambda>s. if start s > now then s\<lparr>deleted := True\<rparr> else s)"
  let ?lk = "user_lookup users"
  let ?T0 = "map inv table"
  let ?T' = "fst (upsert_events ?lk events ?T0)"
  let ?U = "map inv ?T'"
  have u: "update_shifts now events users t = upsert_events ?lk events (map inv t)" for t
    by (simp add: update_shifts_def inv_def)
  have uinv: "uid (inv s) = uid s" for s
    by (simp add: inv_def)
  have idem: "inv (inv s) = inv s" for s
    by (simp add: inv_def)
  note fr = upsert_frame [of ?T0 ?lk events]
  have fr1: "length ?T0 \<le> length ?T'"
    and fr2: "\<forall>j < length ?T0. uid (?T' ! j) = uid (?T0 ! j)"
    and fr3: "\<forall>j < length ?T0. uid (?T0 ! j) \<notin> touched ?lk events ?T0 \<longrightarrow> ?T' ! j = ?T0 ! j"
    and fr4: "\<forall>j < length ?T'. length ?T0 \<le> j \<longrightarrow> uid (?T' ! j) \<in> touched ?lk events ?T0"
    using fr by blast+
  have a1: "length ?U = length ?T'" by simp
  have a2: "\<forall>j < length ?U. uid (?U ! j) = uid (?T' ! j)"
    by (simp add: uinv)
  have a3: "\<forall>j < length ?U. uid (?U ! j) \<notin> touched ?lk events ?T0 \<longrightarrow> ?U ! j = ?T' ! j"
  proof (intro allI impI)
    fix j assume "j < length ?U" and n: "uid (?U ! j) \<notin> touched ?lk events ?T0"
    then have j: "j < length ?T'" by simp
    have n': "uid (?T' ! j) \<notin> touched ?lk events ?T0"
      using n j by (simp add: uinv)
    have j0: "j < length ?T0"
      using fr4 j n' by (meson not_le)
    have "uid (?T0 ! j) \<notin> touched ?lk events ?T0"
      using fr2 j0 n' by simp
    then have "?T' ! j = ?T0 ! j"
      using fr3 j0 by blast
    moreover have "?T0 ! j = inv (table ! j)"
      using j0 by simp
    ultimately have "inv (?T' ! j) = ?T' ! j"
      using idem [of "table ! j"] by simp
    then show "?U ! j = ?T' ! j"
      using j by simp
  qed
  have "upsert_events ?lk events ?U = upsert_events ?lk events ?T0"
    using a1 a2 a3 by (rule upsert_absorb)
  then have e: "update_shifts now events users (fst (update_shifts now events users table))
                  = update_shifts now events users table"
    by (simp add: u)
  show ?thesis
    unfolding e by simp
qed

end
